theory Spec2Isabelle
  imports Complex_Main "HOL-Library.AList"
begin

section \<open>The chat store of \<open>frontend/src/stores/chat.ts\<close>\<close>

text \<open>
  The store keeps two JavaScript \<open>Map\<close>s, \<open>conversations\<close> and \<open>websockets\<close>, whose
  values are objects. Objects are shared by reference: every handler that
  \<open>connectWebSocket\<close> installs on a socket closes over the \<open>conversation\<close> object it
  looked up when the socket was made. The model therefore has an explicit object store:
  a conversation is a reference (a natural number) into \<open>heap\<close>, a socket a reference
  into \<open>sockets\<close>, and the two \<open>Map\<close>s are association lists from keys to references
  (a JavaScript \<open>Map\<close> keeps insertion order). Vue hands out one reactive proxy per
  object, so a reference stands for the object and for its proxy alike.

  Time (\<open>new Date().toISOString()\<close>) is a parameter \<open>now\<close> of every operation that reads
  the clock; the result of the awaited HTTP call is a parameter of \<open>sendMessage\<close>; the
  credential (\<open>localStorage.getItem('token')\<close>) is a field of the store.
\<close>

subsection \<open>Data model\<close>

datatype role = User | Assistant | System

text \<open>
  A JavaScript value as \<open>JSON.parse\<close> or a missing property can give it. The field \<open>error\<close>
  is declared \<open>string | null\<close>, but at run time it holds whatever is assigned to it.
\<close>

datatype js_value =
    V_undefined
  | V_null
  | V_bool bool
  | V_number real
  | V_string string
  | V_array "js_value list"
  | V_object "(string \<times> js_value) list"

record tool_use =
  tool :: string
  arguments :: "(string \<times> string) list"
  result :: "string option"
  tu_error :: "string option"

record ChatMessage =
  role :: role
  content :: string
  timestamp :: string
  tool_uses :: "tool_use list option"

record ChatState =
  messages :: "ChatMessage list"
  isConnected :: bool
  isStreaming :: bool
  error :: js_value

datatype readyState = CONNECTING | OPEN | CLOSING | CLOSED

text \<open>The frame \<open>{message, history}\<close> handed to \<open>ws.send\<close>, before \<open>JSON.stringify\<close>.\<close>

record out_frame =
  message :: string
  history :: "ChatMessage list"

text \<open>
  A socket made by \<open>connectWebSocket\<close>: its ready state, the \<open>researchId\<close> and the
  \<open>conversation\<close> object its handlers closed over, and the frames sent on it so far.
\<close>

record WebSocket =
  readyState :: readyState
  researchId :: string
  conversation :: nat
  sent :: "out_frame list"

record store =
  conversations :: "(string \<times> nat) list"
  activeResearchId :: "string option"
  websockets :: "(string \<times> nat) list"
  heap :: "nat \<Rightarrow> ChatState"
  next_ref :: nat
  sockets :: "nat \<Rightarrow> WebSocket"
  next_ws :: nat
  token :: "string option"

datatype js_error =
    Error string
  | AxiosError js_value
  | SyntaxError
  | TypeError
  | WsErrorEvent

text \<open>
  What \<open>JSON.parse(event.data)\<close> gives the \<open>onmessage\<close> handler. \<open>BadJSON\<close>: the parse
  throws. \<open>JNull\<close>: the text is \<open>null\<close>, so reading \<open>data.type\<close> throws. \<open>JData\<close>: any other
  value; \<open>d_type\<close> is \<open>None\<close> when \<open>data.type\<close> is not a string (then no branch of
  the handler is taken). The fields the branches read are typed as the wire protocol has
  them: \<open>content\<close> and \<open>tool\<close> are strings.
\<close>

record ws_payload =
  d_type :: "string option"
  d_content :: string
  d_tool :: string
  d_arguments :: "(string \<times> string) list"

datatype event_data = BadJSON | JNull | JData ws_payload

text \<open>The body of a successful response of \<open>POST /api/v1/chat/send\<close>.\<close>

record response_data =
  r_content :: string
  r_timestamp :: string
  r_tool_uses :: "tool_use list option"

text \<open>
  The outcome of \<open>await axios.post(...)\<close>: the response, or a rejection whose
  \<open>err.response?.data?.detail\<close> is the given value (\<open>undefined\<close> when there is no response,
  no body or no such property).
\<close>

datatype http_result = Resolved response_data | Rejected js_value

subsection \<open>Helpers for the object store\<close>

definition empty_state :: ChatState where
  "empty_state = \<lparr>messages = [], isConnected = False, isStreaming = False, error = V_null\<rparr>"

definition init_store :: store where
  "init_store = \<lparr>conversations = [], activeResearchId = None, websockets = [],
     heap = (\<lambda>_. empty_state), next_ref = 0,
     sockets = (\<lambda>_. \<lparr>readyState = CLOSED, researchId = [], conversation = 0, sent = []\<rparr>),
     next_ws = 0, token = None\<rparr>"

text \<open>\<open>Map.prototype.has\<close>, \<open>get\<close>, \<open>set\<close> and \<open>delete\<close> on an association list.\<close>

definition has :: "(string \<times> nat) list \<Rightarrow> string \<Rightarrow> bool" where
  "has m k = (map_of m k \<noteq> None)"

text \<open>A mutation of the conversation object at reference \<open>a\<close>.\<close>

definition upd_conv :: "nat \<Rightarrow> (ChatState \<Rightarrow> ChatState) \<Rightarrow> store \<Rightarrow> store" where
  "upd_conv a f s = s\<lparr>heap := (heap s)(a := f (heap s a))\<rparr>"

definition upd_ws :: "nat \<Rightarrow> (WebSocket \<Rightarrow> WebSocket) \<Rightarrow> store \<Rightarrow> store" where
  "upd_ws w f s = s\<lparr>sockets := (sockets s)(w := f (sockets s w))\<rparr>"

text \<open>\<open>conversation.messages.push(m)\<close>.\<close>

definition push :: "ChatMessage \<Rightarrow> ChatState \<Rightarrow> ChatState" where
  "push m c = c\<lparr>messages := messages c @ [m]\<rparr>"

text \<open>
  \<open>if (!token)\<close>: \<open>localStorage.getItem\<close> gives \<open>null\<close> or a string, and the empty string
  is falsy as well.
\<close>

definition no_token :: "string option \<Rightarrow> bool" where
  "no_token t = (case t of None \<Rightarrow> True | Some x \<Rightarrow> x = [])"

text \<open>
  The values that \<open>||\<close> passes over: \<open>undefined\<close>, \<open>null\<close>, \<open>false\<close>, zero and the empty
  string are falsy; every array and every object is truthy.
\<close>

fun truthy :: "js_value \<Rightarrow> bool" where
  "truthy V_undefined = False"
| "truthy V_null = False"
| "truthy (V_bool b) = b"
| "truthy (V_number x) = (x \<noteq> 0)"
| "truthy (V_string x) = (x \<noteq> [])"
| "truthy (V_array xs) = True"
| "truthy (V_object kvs) = True"

text \<open>
  \<open>ws.close()\<close>: a socket that is connecting or open starts closing; on a socket that
  is closing or closed the call does nothing. The \<open>close\<close> event comes later.
\<close>

definition ws_close :: "nat \<Rightarrow> store \<Rightarrow> store" where
  "ws_close w s =
     (if readyState (sockets s w) = CONNECTING \<or> readyState (sockets s w) = OPEN
      then upd_ws w (\<lambda>x. x\<lparr>readyState := CLOSING\<rparr>) s
      else s)"

subsection \<open>Getters and actions\<close>

definition getConversation :: "string \<Rightarrow> store \<Rightarrow> nat \<times> store" where
  "getConversation k s =
     (let s1 = (if \<not> has (conversations s) k
                then s\<lparr>conversations := AList.update k (next_ref s) (conversations s),
                       heap := (heap s)(next_ref s := empty_state),
                       next_ref := Suc (next_ref s)\<rparr>
                else s)
      in (the (map_of (conversations s1) k), s1))"

definition currentConversation :: "store \<Rightarrow> nat option \<times> store" where
  "currentConversation s =
     (case activeResearchId s of
        None \<Rightarrow> (None, s)
      | Some k \<Rightarrow> if k = [] then (None, s)
                 else (Some (fst (getConversation k s)), snd (getConversation k s)))"

definition setActiveResearch :: "string \<Rightarrow> store \<Rightarrow> store" where
  "setActiveResearch k s =
     (let s1 = s\<lparr>activeResearchId := Some k\<rparr>
      in if \<not> has (conversations s1) k
         then s1\<lparr>conversations := AList.update k (next_ref s1) (conversations s1),
                 heap := (heap s1)(next_ref s1 := empty_state),
                 next_ref := Suc (next_ref s1)\<rparr>
         else s1)"

text \<open>
  \<open>sendMessage\<close> runs in two parts, split at the \<open>await\<close>. \<open>sendMessage_begin\<close> is the
  part before it: it gives \<open>Inl e\<close> when the \<open>catch\<close> branch has run and the promise is
  rejected with \<open>e\<close>, and \<open>Inr a\<close> (the conversation object) when the request is on its
  way. \<open>sendMessage_resume\<close> is the part after it, given the outcome of the request.
\<close>

definition catch_error :: "nat \<Rightarrow> js_value \<Rightarrow> store \<Rightarrow> store" where
  "catch_error a detail s =
     upd_conv a (\<lambda>c. c\<lparr>error := (if truthy detail then detail
                                   else V_string ''Failed to send message'')\<rparr>) s"

definition sendMessage_begin ::
  "string \<Rightarrow> string \<Rightarrow> string \<Rightarrow> store \<Rightarrow> (js_error + nat) \<times> store" where
  "sendMessage_begin k text now s =
     (let (a, s1) = getConversation k s;
          userMessage = \<lparr>role = User, content = text, timestamp = now, tool_uses = None\<rparr>;
          s2 = upd_conv a (push userMessage) s1;
          s3 = upd_conv a (\<lambda>c. c\<lparr>error := V_null\<rparr>) s2
      in if no_token (token s3)
         then (Inl (Error ''Not authenticated''), catch_error a V_undefined s3)
         else (Inr a, s3))"

definition sendMessage_resume :: "nat \<Rightarrow> http_result \<Rightarrow> store \<Rightarrow> js_error option \<times> store" where
  "sendMessage_resume a r s =
     (case r of
        Resolved d \<Rightarrow>
          (None, upd_conv a (push \<lparr>role = Assistant, content = r_content d,
                                   timestamp = r_timestamp d, tool_uses = r_tool_uses d\<rparr>) s)
      | Rejected detail \<Rightarrow> (Some (AxiosError detail), catch_error a detail s))"

definition sendMessage ::
  "string \<Rightarrow> string \<Rightarrow> string \<Rightarrow> http_result \<Rightarrow> store \<Rightarrow> js_error option \<times> store" where
  "sendMessage k text now r s =
     (case sendMessage_begin k text now s of
        (Inl e, s1) \<Rightarrow> (Some e, s1)
      | (Inr a, s1) \<Rightarrow> sendMessage_resume a r s1)"

text \<open>
  The executor of the promise that \<open>connectWebSocket\<close> returns. \<open>Inl e\<close>: the promise
  is rejected with \<open>e\<close>. \<open>Inr w\<close>: a new socket \<open>w\<close> is connecting, with the four handlers
  below installed on it; the promise is still pending. The URL built from \<open>researchId\<close>
  is taken to be one that \<open>new WebSocket\<close> accepts.
\<close>

definition connectWebSocket :: "string \<Rightarrow> store \<Rightarrow> (js_error + nat) \<times> store" where
  "connectWebSocket k s =
     (let (a, s1) = getConversation k s;
          s2 = (if has (websockets s1) k
                then ws_close (the (map_of (websockets s1) k)) s1
                else s1)
      in if no_token (token s2)
         then (Inl (Error ''Not authenticated''), s2)
         else (Inr (next_ws s2),
               s2\<lparr>sockets := (sockets s2)(next_ws s2 :=
                      \<lparr>readyState = CONNECTING, researchId = k, conversation = a, sent = []\<rparr>),
                   next_ws := Suc (next_ws s2)\<rparr>))"

text \<open>\<open>ws.onopen\<close> of socket \<open>w\<close>; it resolves the promise.\<close>

definition onopen :: "nat \<Rightarrow> store \<Rightarrow> store" where
  "onopen w s =
     (let s1 = upd_conv (conversation (sockets s w))
                 (\<lambda>c. c\<lparr>isConnected := True, error := V_null\<rparr>) s
      in s1\<lparr>websockets := AList.update (researchId (sockets s w)) w (websockets s1)\<rparr>)"

text \<open>
  The body of the \<open>try\<close> block of \<open>ws.onmessage\<close> of socket \<open>w\<close>: \<open>Inl\<close> is an exception
  thrown inside it.
\<close>

definition append_last :: "string \<Rightarrow> ChatState \<Rightarrow> ChatState" where
  "append_last x c =
     c\<lparr>messages := (messages c)[length (messages c) - 1 :=
          (last (messages c))\<lparr>content := content (last (messages c)) @ x\<rparr>]\<rparr>"

definition add_tool_use :: "tool_use \<Rightarrow> ChatState \<Rightarrow> ChatState" where
  "add_tool_use t c =
     c\<lparr>messages := (messages c)[length (messages c) - 1 :=
          (last (messages c))\<lparr>tool_uses :=
             Some ((case tool_uses (last (messages c)) of None \<Rightarrow> [] | Some ts \<Rightarrow> ts) @ [t])\<rparr>]\<rparr>"

definition last_is_assistant :: "ChatState \<Rightarrow> bool" where
  "last_is_assistant c = (messages c \<noteq> [] \<and> role (last (messages c)) = Assistant)"

definition onmessage_try :: "nat \<Rightarrow> event_data \<Rightarrow> string \<Rightarrow> store \<Rightarrow> js_error + store" where
  "onmessage_try w ev now s =
     (let a = conversation (sockets s w) in
      case ev of
        BadJSON \<Rightarrow> Inl SyntaxError
      | JNull \<Rightarrow> Inl TypeError
      | JData d \<Rightarrow>
          Inr (if d_type d = Some ''chunk'' then
                 (if isStreaming (heap s a) then
                    (if last_is_assistant (heap s a)
                     then upd_conv a (append_last (d_content d)) s
                     else upd_conv a (push \<lparr>role = Assistant, content = d_content d,
                                             timestamp = now, tool_uses = None\<rparr>) s)
                  else upd_conv a (push \<lparr>role = Assistant, content = d_content d,
                                          timestamp = now, tool_uses = None\<rparr>)
                         (upd_conv a (\<lambda>c. c\<lparr>isStreaming := True\<rparr>) s))
               else if d_type d = Some ''complete'' then
                 upd_conv a (\<lambda>c. c\<lparr>isStreaming := False\<rparr>) s
               else if d_type d = Some ''error'' then
                 upd_conv a (\<lambda>c. c\<lparr>error := V_string (d_content d), isStreaming := False\<rparr>) s
               else if d_type d = Some ''tool_use'' then
                 (if last_is_assistant (heap s a)
                  then upd_conv a (add_tool_use \<lparr>tool = d_tool d, arguments = d_arguments d,
                                                 result = None, tu_error = None\<rparr>) s
                  else s)
               else s))"

text \<open>\<open>ws.onmessage\<close>: the \<open>catch\<close> clause only logs to the console.\<close>

definition onmessage :: "nat \<Rightarrow> event_data \<Rightarrow> string \<Rightarrow> store \<Rightarrow> store" where
  "onmessage w ev now s = (case onmessage_try w ev now s of Inl e \<Rightarrow> s | Inr s' \<Rightarrow> s')"

text \<open>\<open>ws.onerror\<close>; it rejects the promise with the event.\<close>

definition onerror :: "nat \<Rightarrow> store \<Rightarrow> js_error \<times> store" where
  "onerror w s =
     (WsErrorEvent,
      upd_conv (conversation (sockets s w))
        (\<lambda>c. c\<lparr>error := V_string ''WebSocket connection error'', isConnected := False\<rparr>) s)"

definition onclose :: "nat \<Rightarrow> store \<Rightarrow> store" where
  "onclose w s =
     (let s1 = upd_conv (conversation (sockets s w))
                 (\<lambda>c. c\<lparr>isConnected := False, isStreaming := False\<rparr>) s
      in s1\<lparr>websockets := AList.delete (researchId (sockets s w)) (websockets s1)\<rparr>)"

definition sendWebSocketMessage ::
  "string \<Rightarrow> string \<Rightarrow> string \<Rightarrow> store \<Rightarrow> js_error option \<times> store" where
  "sendWebSocketMessage k text now s =
     (let (a, s1) = getConversation k s in
      case map_of (websockets s1) k of
        None \<Rightarrow> (Some (Error ''WebSocket not connected''), s1)
      | Some w \<Rightarrow>
          if readyState (sockets s1 w) \<noteq> OPEN
          then (Some (Error ''WebSocket not connected''), s1)
          else
            (let userMessage = \<lparr>role = User, content = text, timestamp = now,
                                tool_uses = None\<rparr>;
                 s2 = upd_conv a (push userMessage) s1
             in (None,
                 upd_ws w (\<lambda>x. x\<lparr>sent := sent x @
                      [\<lparr>message = text, history = butlast (messages (heap s2 a))\<rparr>]\<rparr>) s2)))"

definition disconnectWebSocket :: "string \<Rightarrow> store \<Rightarrow> store" where
  "disconnectWebSocket k s =
     (let s1 = (case map_of (websockets s) k of
                  None \<Rightarrow> s
                | Some w \<Rightarrow> (ws_close w s)\<lparr>websockets := AList.delete k (websockets s)\<rparr>);
          (a, s2) = getConversation k s1
      in upd_conv a (\<lambda>c. c\<lparr>isConnected := False, isStreaming := False\<rparr>) s2)"

definition clearConversation :: "string \<Rightarrow> store \<Rightarrow> store" where
  "clearConversation k s =
     (let (a, s1) = getConversation k s
      in upd_conv a (\<lambda>c. c\<lparr>messages := [], error := V_null\<rparr>) s1)"

definition clearAllConversations :: "store \<Rightarrow> store" where
  "clearAllConversations s =
     (fold ws_close (map snd (websockets s)) s)
       \<lparr>websockets := [], conversations := [], activeResearchId := None\<rparr>"

subsection \<open>Runs of the store\<close>

text \<open>
  Everything that can happen to the store: a call of an exported getter or action, the
  resumption of a \<open>sendMessage\<close> whose request has come back, an event that the browser
  delivers to a socket, and a change of the stored credential by the rest of the
  application. The browser delivers \<open>open\<close> to a connecting socket only, \<open>message\<close> to
  an open socket only, and \<open>error\<close> and \<open>close\<close> to a socket that is not closed yet; it
  sets the ready state before it calls \<open>onopen\<close> or \<open>onclose\<close>.
\<close>

datatype action =
    Call_getConversation string
  | Call_currentConversation
  | Call_setActiveResearch string
  | Call_sendMessage string string string
  | Resume_sendMessage nat http_result
  | Call_connectWebSocket string
  | Ev_open nat
  | Ev_message nat event_data string
  | Ev_error nat
  | Ev_close nat
  | Call_sendWebSocketMessage string string string
  | Call_disconnectWebSocket string
  | Call_clearConversation string
  | Call_clearAllConversations
  | Set_token "string option"

fun step :: "action \<Rightarrow> store \<Rightarrow> store" where
  "step (Call_getConversation k) s = snd (getConversation k s)"
| "step Call_currentConversation s = snd (currentConversation s)"
| "step (Call_setActiveResearch k) s = setActiveResearch k s"
| "step (Call_sendMessage k text now) s = snd (sendMessage_begin k text now s)"
| "step (Resume_sendMessage a r) s =
     (if a < next_ref s then snd (sendMessage_resume a r s) else s)"
| "step (Call_connectWebSocket k) s = snd (connectWebSocket k s)"
| "step (Ev_open w) s =
     (if readyState (sockets s w) = CONNECTING
      then onopen w (upd_ws w (\<lambda>x. x\<lparr>readyState := OPEN\<rparr>) s) else s)"
| "step (Ev_message w ev now) s =
     (if readyState (sockets s w) = OPEN then onmessage w ev now s else s)"
| "step (Ev_error w) s =
     (if readyState (sockets s w) \<noteq> CLOSED then snd (onerror w s) else s)"
| "step (Ev_close w) s =
     (if readyState (sockets s w) \<noteq> CLOSED
      then onclose w (upd_ws w (\<lambda>x. x\<lparr>readyState := CLOSED\<rparr>) s) else s)"
| "step (Call_sendWebSocketMessage k text now) s = snd (sendWebSocketMessage k text now s)"
| "step (Call_disconnectWebSocket k) s = disconnectWebSocket k s"
| "step (Call_clearConversation k) s = clearConversation k s"
| "step Call_clearAllConversations s = clearAllConversations s"
| "step (Set_token t) s = s\<lparr>token := t\<rparr>"

text \<open>The store after the actions \<open>as\<close>, in order, from the store \<open>s\<close>.\<close>

definition run :: "action list \<Rightarrow> store \<Rightarrow> store" where
  "run as s = fold step as s"

text \<open>Inbound frames \<open>{type: 'chunk', content}\<close>, \<open>{type: 'complete'}\<close> and \<open>{type: 'error', content}\<close>.\<close>

definition chunk :: "string \<Rightarrow> event_data" where
  "chunk x = JData \<lparr>d_type = Some ''chunk'', d_content = x, d_tool = [], d_arguments = []\<rparr>"

definition complete :: event_data where
  "complete = JData \<lparr>d_type = Some ''complete'', d_content = [], d_tool = [], d_arguments = []\<rparr>"

definition error_frame :: "string \<Rightarrow> event_data" where
  "error_frame x = JData \<lparr>d_type = Some ''error'', d_content = x, d_tool = [], d_arguments = []\<rparr>"

text \<open>
  A store with one open stream: after a login, \<open>connectWebSocket('r1')\<close> and the \<open>open\<close>
  event of its socket, which is socket \<open>0\<close> with conversation object \<open>0\<close>.
\<close>

definition open_store :: store where
  "open_store = run [Set_token (Some ''tok''), Call_connectWebSocket ''r1'', Ev_open 0] init_store"

text \<open>The same store after a logout: the stream is still open, the credential is gone.\<close>

definition logged_out_store :: store where
  "logged_out_store = run [Set_token None] open_store"

text \<open>
  A store in the middle of a streamed reply: the first fragment has arrived on socket
  \<open>0\<close>, and then the user has sent another question over the same socket.
\<close>

definition mid_stream_store :: store where
  "mid_stream_store =
     run [Ev_message 0 (chunk ''A'') ''t1'',
          Call_sendWebSocketMessage ''r1'' ''q'' ''t2''] open_store"

text \<open>
  A store in which \<open>clearAllConversations\<close> has run while the socket for \<open>r1\<close> was still
  connecting. The socket is not in the registry yet, so it is not closed; it then opens,
  is registered for \<open>r1\<close>, and its handlers still hold conversation object \<open>0\<close>, while
  \<open>getConversation('r1')\<close> has made object \<open>1\<close>.
\<close>

definition race_store :: store where
  "race_store =
     run [Set_token (Some ''tok''), Call_connectWebSocket ''r1'', Call_clearAllConversations,
          Ev_open 0, Call_getConversation ''r1''] init_store"

text \<open>A store with a credential in which the key \<open>r0\<close> has been looked up: object \<open>0\<close> is taken.\<close>

definition used_store :: store where
  "used_store = run [Set_token (Some ''tok''), Call_getConversation ''r0''] init_store"

subsection \<open>Observations\<close>

text \<open>What \<open>getConversation(k)\<close> returns in the store \<open>s\<close>, as a value.\<close>

definition conv :: "string \<Rightarrow> store \<Rightarrow> ChatState" where
  "conv k s = heap (snd (getConversation k s)) (fst (getConversation k s))"

text \<open>
  The registry \<open>conversations\<close> is well formed: it has one entry per key, no conversation
  object is entered under two keys, and every object in it has been allocated.
\<close>

definition registry_ok :: "store \<Rightarrow> bool" where
  "registry_ok s =
     (distinct (map fst (conversations s)) \<and> distinct (map snd (conversations s))
      \<and> list_all (\<lambda>a. a < next_ref s) (map snd (conversations s)))"

text \<open>
  What a step can do to the registry and to the allocator: leave both as they are, or
  allocate the next object and enter it for a key that has no entry.
\<close>

definition same_registry :: "store \<Rightarrow> store \<Rightarrow> bool" where
  "same_registry s s' = (conversations s' = conversations s \<and> next_ref s' = next_ref s)"

definition allocated_for :: "string \<Rightarrow> store \<Rightarrow> store \<Rightarrow> bool" where
  "allocated_for k s s' =
     (map_of (conversations s) k = None
      \<and> conversations s' = conversations s @ [(k, next_ref s)]
      \<and> next_ref s' = Suc (next_ref s))"

text \<open>
  The socket \<open>w\<close> exists and the conversation object its handlers hold is the one
  registered for the key \<open>k\<close>.
\<close>

definition writes_to :: "nat \<Rightarrow> string \<Rightarrow> store \<Rightarrow> bool" where
  "writes_to w k s =
     (w < next_ws s \<and> map_of (conversations s) k = Some (conversation (sockets s w)))"

section \<open>Facts about the object store\<close>

lemma heap_upd_conv: "heap (upd_conv a f s) b = (if b = a then f (heap s a) else heap s b)"
  by (simp add: upd_conv_def)

lemma upd_conv_fields:
  "sockets (upd_conv a f s) = sockets s"
  "websockets (upd_conv a f s) = websockets s"
  "conversations (upd_conv a f s) = conversations s"
  "next_ref (upd_conv a f s) = next_ref s"
  "next_ws (upd_conv a f s) = next_ws s"
  "token (upd_conv a f s) = token s"
  by (simp_all add: upd_conv_def)

lemma sockets_upd_ws: "sockets (upd_ws w f s) v = (if v = w then f (sockets s w) else sockets s v)"
  by (simp add: upd_ws_def)

lemma upd_ws_fields:
  "heap (upd_ws w f s) = heap s"
  "websockets (upd_ws w f s) = websockets s"
  "conversations (upd_ws w f s) = conversations s"
  "next_ref (upd_ws w f s) = next_ref s"
  "next_ws (upd_ws w f s) = next_ws s"
  "token (upd_ws w f s) = token s"
  by (simp_all add: upd_ws_def)

lemma ws_close_fields:
  "heap (ws_close w s) = heap s"
  "websockets (ws_close w s) = websockets s"
  "conversations (ws_close w s) = conversations s"
  "next_ref (ws_close w s) = next_ref s"
  "next_ws (ws_close w s) = next_ws s"
  "token (ws_close w s) = token s"
  by (simp_all add: ws_close_def upd_ws_fields)

lemma gc_old: "map_of (conversations s) k = Some a \<Longrightarrow> getConversation k s = (a, s)"
  by (simp add: getConversation_def has_def)

lemma gc_new:
  "map_of (conversations s) k = None \<Longrightarrow>
   getConversation k s =
     (next_ref s, s\<lparr>conversations := AList.update k (next_ref s) (conversations s),
                    heap := (heap s)(next_ref s := empty_state),
                    next_ref := Suc (next_ref s)\<rparr>)"
  by (simp add: getConversation_def has_def update_conv')

lemma gc_lookup:
  "map_of (conversations (snd (getConversation k s))) k = Some (fst (getConversation k s))"
  by (cases "map_of (conversations s) k") (simp_all add: gc_old gc_new update_conv')

lemma gc_idem: "getConversation k (snd (getConversation k s)) = getConversation k s"
  using gc_old [OF gc_lookup, of k s] by simp

lemma gc_fields:
  "websockets (snd (getConversation k s)) = websockets s"
  "sockets (snd (getConversation k s)) = sockets s"
  "token (snd (getConversation k s)) = token s"
  "next_ws (snd (getConversation k s)) = next_ws s"
  by (cases "map_of (conversations s) k"; simp add: gc_old gc_new)+

lemma conv_heap: "map_of (conversations s) k = Some a \<Longrightarrow> conv k s = heap s a"
  by (simp add: conv_def gc_old)

lemma conv_after:
  assumes "conversations s' = conversations (snd (getConversation k s))"
  shows "conv k s' = heap s' (fst (getConversation k s))"
  using assms gc_lookup [of k s] by (simp add: conv_heap)

section \<open>The inbound handler, branch by branch\<close>

lemma onmessage_sockets: "sockets (onmessage w ev now s) = sockets s"
  by (cases ev) (simp_all add: onmessage_def onmessage_try_def Let_def upd_conv_fields)

lemma onmessage_chunk_idle:
  assumes "d_type d = Some ''chunk''" "\<not> isStreaming (heap s (conversation (sockets s w)))"
  shows "onmessage w (JData d) now s =
     upd_conv (conversation (sockets s w))
       (\<lambda>c. c\<lparr>isStreaming := True,
               messages := messages c @ [\<lparr>role = Assistant, content = d_content d,
                                          timestamp = now, tool_uses = None\<rparr>]\<rparr>) s"
  using assms
  by (simp add: onmessage_def onmessage_try_def Let_def upd_conv_def push_def)

lemma onmessage_chunk_append:
  assumes "d_type d = Some ''chunk''" "isStreaming (heap s (conversation (sockets s w)))"
    "last_is_assistant (heap s (conversation (sockets s w)))"
  shows "onmessage w (JData d) now s =
     upd_conv (conversation (sockets s w)) (append_last (d_content d)) s"
  using assms
  by (simp add: onmessage_def onmessage_try_def Let_def)

lemma onmessage_chunk_push:
  assumes "d_type d = Some ''chunk''" "isStreaming (heap s (conversation (sockets s w)))"
    "\<not> last_is_assistant (heap s (conversation (sockets s w)))"
  shows "onmessage w (JData d) now s =
     upd_conv (conversation (sockets s w))
       (push \<lparr>role = Assistant, content = d_content d, timestamp = now, tool_uses = None\<rparr>) s"
  using assms
  by (simp add: onmessage_def onmessage_try_def Let_def)

lemma onmessage_complete:
  assumes "d_type d = Some ''complete''"
  shows "onmessage w (JData d) now s =
     upd_conv (conversation (sockets s w)) (\<lambda>c. c\<lparr>isStreaming := False\<rparr>) s"
  using assms
  by (simp add: onmessage_def onmessage_try_def Let_def)

lemma onmessage_error:
  assumes "d_type d = Some ''error''"
  shows "onmessage w (JData d) now s =
     upd_conv (conversation (sockets s w))
       (\<lambda>c. c\<lparr>error := V_string (d_content d), isStreaming := False\<rparr>) s"
  using assms
  by (simp add: onmessage_def onmessage_try_def Let_def)

lemmas concrete_defs = run_def init_store_def connectWebSocket_def getConversation_def has_def
  no_token_def ws_close_def upd_ws_def upd_conv_def onopen_def empty_state_def Let_def
  onmessage_def onmessage_try_def push_def append_last_def last_is_assistant_def
  sendWebSocketMessage_def chunk_def complete_def error_frame_def

lemma open_store_eq:
  "open_store = \<lparr>conversations = [(''r1'', 0)], activeResearchId = None,
     websockets = [(''r1'', 0)],
     heap = (\<lambda>_. empty_state)
       (0 := \<lparr>messages = [], isConnected = True, isStreaming = False, error = V_null\<rparr>),
     next_ref = 1,
     sockets = (\<lambda>_. \<lparr>readyState = CLOSED, researchId = [], conversation = 0, sent = []\<rparr>)
       (0 := \<lparr>readyState = OPEN, researchId = ''r1'', conversation = 0, sent = []\<rparr>),
     next_ws = 1, token = Some ''tok''\<rparr>"
  by (simp add: open_store_def concrete_defs)

section \<open>What a step keeps\<close>

lemma update_fresh: "map_of al k = None \<Longrightarrow> AList.update k v al = al @ [(k, v)]"
  by (induction al) (auto split: if_splits)

lemma getConversation_registry:
  "same_registry s (snd (getConversation k s)) \<or> allocated_for k s (snd (getConversation k s))"
proof (cases "map_of (conversations s) k")
  case None
  then show ?thesis
    by (simp add: gc_new update_fresh allocated_for_def)
next
  case (Some a)
  then show ?thesis
    by (simp add: gc_old same_registry_def)
qed

lemma getConversation_registry_cong:
  assumes "same_registry s s1"
  shows "conversations (snd (getConversation k s1)) = conversations (snd (getConversation k s))
       \<and> next_ref (snd (getConversation k s1)) = next_ref (snd (getConversation k s))"
  using assms by (simp add: same_registry_def getConversation_def Let_def)

lemma setActiveResearch_eq:
  "setActiveResearch k s = (snd (getConversation k s))\<lparr>activeResearchId := Some k\<rparr>"
  by (simp add: setActiveResearch_def getConversation_def Let_def)

lemma sendMessage_begin_registry:
  "same_registry (snd (getConversation k s)) (snd (sendMessage_begin k text now s))"
  by (simp add: sendMessage_begin_def split_beta Let_def catch_error_def upd_conv_fields
      same_registry_def)

lemma sendMessage_resume_registry: "same_registry s (snd (sendMessage_resume a r s))"
  by (simp add: sendMessage_resume_def catch_error_def upd_conv_fields same_registry_def
      split: http_result.splits)

lemma onmessage_registry: "same_registry s (onmessage w ev now s)"
  by (cases ev)
    (simp_all add: onmessage_def onmessage_try_def Let_def upd_conv_fields same_registry_def)

lemma connectWebSocket_registry:
  "same_registry (snd (getConversation k s)) (snd (connectWebSocket k s))"
  by (simp add: connectWebSocket_def split_beta Let_def ws_close_fields same_registry_def)

lemma sendWebSocketMessage_registry:
  "same_registry (snd (getConversation k s)) (snd (sendWebSocketMessage k text now s))"
  by (simp add: sendWebSocketMessage_def split_beta Let_def upd_ws_fields upd_conv_fields
      same_registry_def split: option.splits)

lemma disconnectWebSocket_registry:
  "same_registry (snd (getConversation k s)) (disconnectWebSocket k s)"
proof -
  let ?s1 = "case map_of (websockets s) k of None \<Rightarrow> s
             | Some w \<Rightarrow> (ws_close w s)\<lparr>websockets := AList.delete k (websockets s)\<rparr>"
  have "same_registry s ?s1"
    by (simp add: same_registry_def ws_close_fields split: option.splits)
  then have "conversations (snd (getConversation k ?s1)) = conversations (snd (getConversation k s))
       \<and> next_ref (snd (getConversation k ?s1)) = next_ref (snd (getConversation k s))"
    by (rule getConversation_registry_cong)
  then show ?thesis
    by (simp add: disconnectWebSocket_def split_beta Let_def upd_conv_fields same_registry_def)
qed

lemma clearConversation_registry:
  "same_registry (snd (getConversation k s)) (clearConversation k s)"
  by (simp add: clearConversation_def split_beta upd_conv_fields same_registry_def)

lemma fold_ws_close_fields:
  "next_ref (fold ws_close ws s) = next_ref s"
  "next_ws (fold ws_close ws s) = next_ws s"
  by (induction ws arbitrary: s) (simp_all add: ws_close_fields)

lemma after_getConversation:
  assumes "same_registry (snd (getConversation k s)) s'"
  shows "same_registry s s' \<or> allocated_for k s s'"
  using assms getConversation_registry [of s k]
  by (auto simp: same_registry_def allocated_for_def)

lemma step_registry:
  "same_registry s (step act s)
   \<or> (act = Call_clearAllConversations \<and> conversations (step act s) = []
        \<and> next_ref (step act s) = next_ref s)
   \<or> (\<exists>k. allocated_for k s (step act s))"
proof (cases act)
  case (Call_getConversation k)
  then show ?thesis using getConversation_registry [of s k] by auto
next
  case Call_currentConversation
  show ?thesis
  proof (cases "activeResearchId s")
    case None
    with Call_currentConversation show ?thesis
      by (simp add: currentConversation_def same_registry_def)
  next
    case (Some k)
    with Call_currentConversation show ?thesis
      using getConversation_registry [of s k]
      by (auto simp: currentConversation_def same_registry_def)
  qed
next
  case (Call_setActiveResearch k)
  have "same_registry (snd (getConversation k s)) (setActiveResearch k s)"
    by (simp add: setActiveResearch_eq same_registry_def)
  from after_getConversation [OF this] Call_setActiveResearch show ?thesis by auto
next
  case (Call_sendMessage k msg now)
  from after_getConversation [OF sendMessage_begin_registry [of k s msg now]] Call_sendMessage
  show ?thesis by auto
next
  case (Resume_sendMessage a r)
  then show ?thesis
    using sendMessage_resume_registry [of s a r] by (simp add: same_registry_def)
next
  case (Call_connectWebSocket k)
  from after_getConversation [OF connectWebSocket_registry [of k s]] Call_connectWebSocket
  show ?thesis by auto
next
  case (Ev_open w)
  then show ?thesis
    by (simp add: onopen_def Let_def upd_conv_fields upd_ws_fields same_registry_def)
next
  case (Ev_message w ev now)
  then show ?thesis
    using onmessage_registry [of s w ev now] by (simp add: same_registry_def)
next
  case (Ev_error w)
  then show ?thesis
    by (simp add: onerror_def upd_conv_fields same_registry_def)
next
  case (Ev_close w)
  then show ?thesis
    by (simp add: onclose_def Let_def upd_conv_fields upd_ws_fields same_registry_def)
next
  case (Call_sendWebSocketMessage k msg now)
  from after_getConversation [OF sendWebSocketMessage_registry [of k s msg now]]
    Call_sendWebSocketMessage
  show ?thesis by auto
next
  case (Call_disconnectWebSocket k)
  from after_getConversation [OF disconnectWebSocket_registry [of k s]] Call_disconnectWebSocket
  show ?thesis by auto
next
  case (Call_clearConversation k)
  from after_getConversation [OF clearConversation_registry [of k s]] Call_clearConversation
  show ?thesis by auto
next
  case Call_clearAllConversations
  then show ?thesis
    by (simp add: clearAllConversations_def fold_ws_close_fields)
next
  case (Set_token t)
  then show ?thesis by (simp add: same_registry_def)
qed

lemma step_keeps_entry:
  assumes "act \<noteq> Call_clearAllConversations" "map_of (conversations s) k = Some a"
  shows "map_of (conversations (step act s)) k = Some a"
  using step_registry [of s act] assms
  by (auto simp: same_registry_def allocated_for_def)

lemma registry_ok_init: "registry_ok init_store"
  by (simp add: registry_ok_def init_store_def)

lemma registry_ok_step:
  assumes "registry_ok s"
  shows "registry_ok (step act s)"
proof -
  have "\<And>k. allocated_for k s (step act s) \<Longrightarrow> registry_ok (step act s)"
  proof -
    fix k assume al: "allocated_for k s (step act s)"
    then have k: "k \<notin> fst ` set (conversations s)"
      by (simp add: allocated_for_def map_of_eq_None_iff)
    from assms have fresh: "next_ref s \<notin> snd ` set (conversations s)"
      by (auto simp: registry_ok_def list_all_iff)
    from assms have "list_all (\<lambda>a. a < Suc (next_ref s)) (map snd (conversations s))"
      by (auto simp: registry_ok_def list_all_iff)
    with assms al k fresh show "registry_ok (step act s)"
      by (simp add: allocated_for_def registry_ok_def)
  qed
  with step_registry [of s act] assms show ?thesis
    by (auto simp: same_registry_def registry_ok_def)
qed

lemma registry_ok_run: "registry_ok s \<Longrightarrow> registry_ok (run acts s)"
  unfolding run_def by (induction acts arbitrary: s) (simp_all add: registry_ok_step)

lemma ws_close_conversation:
  "conversation (sockets (ws_close v s) w) = conversation (sockets s w)"
  by (simp add: ws_close_def sockets_upd_ws)

lemma fold_ws_close_conversation:
  "conversation (sockets (fold ws_close ws s) w) = conversation (sockets s w)"
  by (induction ws arbitrary: s) (simp_all add: ws_close_conversation)

lemma step_socket:
  assumes "w < next_ws s"
  shows "w < next_ws (step act s)
       \<and> conversation (sockets (step act s) w) = conversation (sockets s w)"
proof (cases act)
  case (Call_getConversation k)
  with assms show ?thesis by (simp add: gc_fields)
next
  case Call_currentConversation
  with assms show ?thesis
    by (simp add: currentConversation_def gc_fields split: option.splits)
next
  case (Call_setActiveResearch k)
  with assms show ?thesis by (simp add: setActiveResearch_eq gc_fields)
next
  case (Call_sendMessage k msg now)
  with assms show ?thesis
    by (simp add: sendMessage_begin_def split_beta Let_def catch_error_def upd_conv_fields
        gc_fields)
next
  case (Resume_sendMessage a r)
  with assms show ?thesis
    by (simp add: sendMessage_resume_def catch_error_def upd_conv_fields
        split: http_result.splits)
next
  case (Call_connectWebSocket k)
  with assms show ?thesis
    by (simp add: connectWebSocket_def split_beta Let_def ws_close_fields
        ws_close_conversation gc_fields)
next
  case (Ev_open v)
  with assms show ?thesis
    by (simp add: onopen_def Let_def upd_conv_fields upd_ws_fields sockets_upd_ws)
next
  case (Ev_message v ev now)
  with assms show ?thesis
    by (cases ev) (simp_all add: onmessage_def onmessage_try_def Let_def upd_conv_fields)
next
  case (Ev_error v)
  with assms show ?thesis by (simp add: onerror_def upd_conv_fields)
next
  case (Ev_close v)
  with assms show ?thesis
    by (simp add: onclose_def Let_def upd_conv_fields upd_ws_fields sockets_upd_ws)
next
  case (Call_sendWebSocketMessage k msg now)
  with assms show ?thesis
    by (simp add: sendWebSocketMessage_def split_beta Let_def upd_conv_fields upd_ws_fields
        sockets_upd_ws gc_fields split: option.splits)
next
  case (Call_disconnectWebSocket k)
  with assms show ?thesis
    by (simp add: disconnectWebSocket_def split_beta Let_def upd_conv_fields gc_fields
        ws_close_fields ws_close_conversation split: option.splits)
next
  case (Call_clearConversation k)
  with assms show ?thesis
    by (simp add: clearConversation_def split_beta upd_conv_fields gc_fields)
next
  case Call_clearAllConversations
  with assms show ?thesis
    by (simp add: clearAllConversations_def fold_ws_close_fields fold_ws_close_conversation)
next
  case (Set_token t)
  with assms show ?thesis by simp
qed

lemma step_writes_to:
  assumes "act \<noteq> Call_clearAllConversations" "writes_to w k s"
  shows "writes_to w k (step act s)"
  using assms step_socket [of w s act] step_keeps_entry [of act s k "conversation (sockets s w)"]
  by (simp add: writes_to_def)

lemma run_writes_to:
  "Call_clearAllConversations \<notin> set acts \<Longrightarrow> writes_to w k s \<Longrightarrow> writes_to w k (run acts s)"
proof (induction acts arbitrary: s)
  case Nil
  then show ?case by (simp add: run_def)
next
  case (Cons act acts)
  from Cons.prems have "act \<noteq> Call_clearAllConversations"
    and rest: "Call_clearAllConversations \<notin> set acts"
    by auto
  then have "writes_to w k (step act s)"
    using Cons.prems(2) by (simp add: step_writes_to)
  with rest have "writes_to w k (run acts (step act s))"
    by (rule Cons.IH)
  then show ?case by (simp add: run_def)
qed

lemma connectWebSocket_writes_to:
  assumes "connectWebSocket k s0 = (Inr w, s1)"
  shows "writes_to w k s1"
proof -
  let ?g = "snd (getConversation k s0)"
  let ?s2 = "if has (websockets ?g) k then ws_close (the (map_of (websockets ?g) k)) ?g else ?g"
  from assms have w: "w = next_ws ?s2"
    and s1: "s1 = ?s2\<lparr>sockets := (sockets ?s2)(next_ws ?s2 :=
                      \<lparr>readyState = CONNECTING, researchId = k,
                         conversation = fst (getConversation k s0), sent = []\<rparr>),
                    next_ws := Suc (next_ws ?s2)\<rparr>"
    by (auto simp: connectWebSocket_def split_beta Let_def split: if_splits)
  have "conversations ?s2 = conversations ?g"
    by (simp add: ws_close_fields)
  then show ?thesis
    using gc_lookup [of k s0] by (simp add: writes_to_def w s1)
qed

lemma writes_to_conv:
  assumes "writes_to w k s"
  shows "conv k s = heap s (conversation (sockets s w))"
  using assms by (simp add: writes_to_def conv_heap)

section \<open>Streaming reconciliation\<close>

text \<open>The handler on the conversation object it holds, for a whole turn.\<close>

lemma onmessage_hello:
  assumes idle: "\<not> isStreaming (heap s (conversation (sockets s w)))"
    and d1: "d_type d1 = Some ''chunk''" "d_content d1 = ''Hel''"
    and d2: "d_type d2 = Some ''chunk''" "d_content d2 = ''lo''"
    and d3: "d_type d3 = Some ''complete''"
  shows "messages (heap (onmessage w (JData d3) t3 (onmessage w (JData d2) t2
                     (onmessage w (JData d1) t1 s))) (conversation (sockets s w)))
         = messages (heap s (conversation (sockets s w)))
           @ [\<lparr>role = Assistant, content = ''Hello'', timestamp = t1, tool_uses = None\<rparr>]
       \<and> \<not> isStreaming (heap (onmessage w (JData d3) t3 (onmessage w (JData d2) t2
                     (onmessage w (JData d1) t1 s))) (conversation (sockets s w)))
       \<and> (\<forall>b. b \<noteq> conversation (sockets s w) \<longrightarrow>
             heap (onmessage w (JData d3) t3 (onmessage w (JData d2) t2
                     (onmessage w (JData d1) t1 s))) b = heap s b)
       \<and> (\<forall>s' t b. messages (heap (onmessage w (JData d3) t s') b) = messages (heap s' b))"
proof -
  let ?a = "conversation (sockets s w)"
  let ?s1 = "onmessage w (JData d1) t1 s"
  let ?s2 = "onmessage w (JData d2) t2 ?s1"
  have s1: "?s1 = upd_conv ?a (\<lambda>c. c\<lparr>isStreaming := True,
               messages := messages c @ [\<lparr>role = Assistant, content = ''Hel'',
                                          timestamp = t1, tool_uses = None\<rparr>]\<rparr>) s"
    using onmessage_chunk_idle [OF d1(1) idle] d1(2) by simp
  have a1: "conversation (sockets ?s1 w) = ?a"
    by (simp add: onmessage_sockets)
  have str1: "isStreaming (heap ?s1 (conversation (sockets ?s1 w)))"
    unfolding a1 by (simp add: s1 heap_upd_conv)
  have la1: "last_is_assistant (heap ?s1 (conversation (sockets ?s1 w)))"
    unfolding a1 by (simp add: s1 heap_upd_conv last_is_assistant_def)
  have s2: "?s2 = upd_conv ?a (append_last ''lo'') ?s1"
    using onmessage_chunk_append [OF d2(1) str1 la1] d2(2) a1 by simp
  have a2: "conversation (sockets ?s2 w) = ?a"
    by (simp add: onmessage_sockets)
  have s3: "onmessage w (JData d3) t3 ?s2 = upd_conv ?a (\<lambda>c. c\<lparr>isStreaming := False\<rparr>) ?s2"
    using onmessage_complete [OF d3, of w t3 ?s2] a2 by simp
  have m: "messages (heap ?s2 ?a) = messages (heap s ?a)
           @ [\<lparr>role = Assistant, content = ''Hello'', timestamp = t1, tool_uses = None\<rparr>]"
    by (subst s2) (simp add: s1 heap_upd_conv append_last_def)
  have other: "\<forall>b. b \<noteq> ?a \<longrightarrow> heap ?s2 b = heap s b"
    by (subst s2) (simp add: s1 heap_upd_conv)
  have compl: "\<forall>s' t b. messages (heap (onmessage w (JData d3) t s') b) = messages (heap s' b)"
    by (simp add: onmessage_complete [OF d3] heap_upd_conv)
  show ?thesis
    by (subst s3)+ (use m other compl in \<open>simp add: heap_upd_conv\<close>)
qed

lemma deliver_three:
  assumes "readyState (sockets s w) = OPEN"
  shows "run [Ev_message w e1 t1, Ev_message w e2 t2, Ev_message w e3 t3] s
       = onmessage w e3 t3 (onmessage w e2 t2 (onmessage w e1 t1 s))"
  using assms by (simp add: run_def onmessage_sockets)

lemma deliver_two:
  assumes "readyState (sockets s w) = OPEN"
  shows "run [Ev_message w e1 t1, Ev_message w e2 t2] s
       = onmessage w e2 t2 (onmessage w e1 t1 s)"
  using assms by (simp add: run_def onmessage_sockets)

lemma onmessage_writes_to:
  assumes "writes_to w k s"
  shows "writes_to w k (onmessage v ev t s)"
  using assms onmessage_registry [of s v ev t] onmessage_sockets [of v ev t s]
  by (cases ev)
    (simp_all add: writes_to_def same_registry_def onmessage_def onmessage_try_def Let_def
      upd_conv_fields)

lemma onmessage_heap_other:
  "b \<noteq> conversation (sockets s w) \<Longrightarrow> heap (onmessage w ev t s) b = heap s b"
  by (cases ev) (simp_all add: onmessage_def onmessage_try_def Let_def heap_upd_conv)

lemma onmessage_conversations: "conversations (onmessage w ev t s) = conversations s"
  using onmessage_registry [of s w ev t] by (simp add: same_registry_def)

lemma race_store_eq:
  "race_store = \<lparr>conversations = [(''r1'', 1)], activeResearchId = None,
     websockets = [(''r1'', 0)],
     heap = (\<lambda>_. empty_state)
       (0 := \<lparr>messages = [], isConnected = True, isStreaming = False, error = V_null\<rparr>,
        1 := empty_state),
     next_ref = 2,
     sockets = (\<lambda>_. \<lparr>readyState = CLOSED, researchId = [], conversation = 0, sent = []\<rparr>)
       (0 := \<lparr>readyState = OPEN, researchId = ''r1'', conversation = 0, sent = []\<rparr>),
     next_ws = 1, token = Some ''tok''\<rparr>"
  by (simp add: race_store_def clearAllConversations_def concrete_defs)

lemma race_store_facts:
  "map_of (websockets race_store) ''r1'' = Some 0"
  "readyState (sockets race_store 0) = OPEN"
  "conversation (sockets race_store 0) = 0"
  "map_of (conversations race_store) ''r1'' = Some (Suc 0)"
  "heap race_store (Suc 0) = empty_state"
  "next_ref race_store = 2"
  by (simp_all add: race_store_eq)

lemma race_store_conv: "conv ''r1'' race_store = empty_state"
  by (simp add: conv_heap [OF race_store_facts(4)] race_store_facts)

text \<open>
  Claim C1 as stated, for every key with an open stream, fails in \<open>race_store\<close>: the socket
  registered for \<open>r1\<close> is open and the conversation of \<open>r1\<close> is not streaming, yet after the
  three events the transcript of \<open>r1\<close> is still empty.
\<close>

theorem stream_hello_for_key_counterexample:
  "map_of (websockets race_store) ''r1'' = Some 0
   \<and> readyState (sockets race_store 0) = OPEN
   \<and> \<not> isStreaming (conv ''r1'' race_store)
   \<and> messages (conv ''r1'' race_store) = []
   \<and> messages (conv ''r1'' (run [Ev_message 0 (chunk ''Hel'') ''t1'',
                                    Ev_message 0 (chunk ''lo'') ''t2'',
                                    Ev_message 0 complete ''t3''] race_store)) = []"
proof -
  let ?S = "run [Ev_message 0 (chunk ''Hel'') ''t1'', Ev_message 0 (chunk ''lo'') ''t2'',
                 Ev_message 0 complete ''t3''] race_store"
  have r: "?S = onmessage 0 complete ''t3'' (onmessage 0 (chunk ''lo'') ''t2''
                  (onmessage 0 (chunk ''Hel'') ''t1'' race_store))"
    by (rule deliver_three) (rule race_store_facts)
  have "map_of (conversations ?S) ''r1'' = Some (Suc 0)"
    by (simp add: r onmessage_conversations race_store_facts)
  then have "conv ''r1'' ?S = heap ?S (Suc 0)"
    by (rule conv_heap)
  also have "\<dots> = heap race_store (Suc 0)"
    by (simp add: r onmessage_heap_other onmessage_sockets race_store_facts)
  finally have "messages (conv ''r1'' ?S) = []"
    by (simp add: race_store_facts empty_state_def)
  then show ?thesis
    by (simp add: race_store_facts race_store_conv empty_state_def)
qed

text \<open>
  Claim C1, amended. Take any key \<open>k\<close> and any stream \<open>w\<close> that \<open>connectWebSocket(k)\<close> has
  made and that is open now, where \<open>clearAllConversations\<close> has not run since that call.
  If the conversation of \<open>k\<close> is not streaming, the events \<open>chunk("Hel")\<close>, \<open>chunk("lo")\<close>,
  \<open>complete\<close>, delivered in this order, append to the transcript of \<open>k\<close> exactly one message:
  an assistant message with content \<open>"Hello"\<close>, stamped with the arrival time of the first
  fragment. \<open>isStreaming\<close> is false afterwards, and a \<open>complete\<close> event never changes the
  messages of any conversation.
\<close>

theorem stream_hello_for_key:
  assumes conn: "connectWebSocket k s0 = (Inr w, s1)"
    and acts: "Call_clearAllConversations \<notin> set acts"
    and opn: "readyState (sockets (run acts s1) w) = OPEN"
    and idle: "\<not> isStreaming (conv k (run acts s1))"
    and d1: "d_type d1 = Some ''chunk''" "d_content d1 = ''Hel''"
    and d2: "d_type d2 = Some ''chunk''" "d_content d2 = ''lo''"
    and d3: "d_type d3 = Some ''complete''"
  shows "messages (conv k (run [Ev_message w (JData d1) t1, Ev_message w (JData d2) t2,
                               Ev_message w (JData d3) t3] (run acts s1)))
         = messages (conv k (run acts s1))
           @ [\<lparr>role = Assistant, content = ''Hello'', timestamp = t1, tool_uses = None\<rparr>]
       \<and> \<not> isStreaming (conv k (run [Ev_message w (JData d1) t1, Ev_message w (JData d2) t2,
                               Ev_message w (JData d3) t3] (run acts s1)))
       \<and> (\<forall>s' t b. messages (heap (onmessage w (JData d3) t s') b) = messages (heap s' b))"
proof -
  let ?s = "run acts s1"
  let ?a = "conversation (sockets ?s w)"
  let ?s3 = "onmessage w (JData d3) t3 (onmessage w (JData d2) t2 (onmessage w (JData d1) t1 ?s))"
  have wt: "writes_to w k ?s"
    using acts connectWebSocket_writes_to [OF conn] by (rule run_writes_to)
  have cv: "conv k ?s = heap ?s ?a"
    using wt by (rule writes_to_conv)
  have r: "run [Ev_message w (JData d1) t1, Ev_message w (JData d2) t2,
                Ev_message w (JData d3) t3] ?s = ?s3"
    using opn by (rule deliver_three)
  have "writes_to w k ?s3"
    by (intro onmessage_writes_to wt)
  then have "conv k ?s3 = heap ?s3 (conversation (sockets ?s3 w))"
    by (rule writes_to_conv)
  then have cv3: "conv k ?s3 = heap ?s3 ?a"
    by (simp add: onmessage_sockets)
  from idle have "\<not> isStreaming (heap ?s ?a)"
    by (simp add: cv)
  note h = onmessage_hello [OF this d1 d2 d3, of t3 t2 t1]
  have m: "messages (heap ?s3 ?a) = messages (heap ?s ?a)
      @ [\<lparr>role = Assistant, content = ''Hello'', timestamp = t1, tool_uses = None\<rparr>]"
    using h by (rule conjunct1)
  have i: "\<not> isStreaming (heap ?s3 ?a)"
    using h by blast
  have c: "\<forall>s' t b. messages (heap (onmessage w (JData d3) t s') b) = messages (heap s' b)"
    using h by blast
  show ?thesis
    unfolding r cv cv3 using m i c by (intro conjI)
qed

lemma used_store_eq:
  "used_store = \<lparr>conversations = [(''r0'', 0)], activeResearchId = None, websockets = [],
     heap = (\<lambda>_. empty_state)(0 := empty_state), next_ref = 1,
     sockets = (\<lambda>_. \<lparr>readyState = CLOSED, researchId = [], conversation = 0, sent = []\<rparr>),
     next_ws = 0, token = Some ''tok''\<rparr>"
  by (simp add: used_store_def concrete_defs)

lemma used_store_opened:
  "run [Ev_open 0] (snd (connectWebSocket ''r2'' used_store))
   = \<lparr>conversations = [(''r0'', 0), (''r2'', 1)], activeResearchId = None,
       websockets = [(''r2'', 0)],
       heap = (\<lambda>_. empty_state)
         (0 := empty_state,
          1 := \<lparr>messages = [], isConnected = True, isStreaming = False, error = V_null\<rparr>),
       next_ref = 2,
       sockets = (\<lambda>_. \<lparr>readyState = CLOSED, researchId = [], conversation = 0, sent = []\<rparr>)
         (0 := \<lparr>readyState = OPEN, researchId = ''r2'', conversation = 1, sent = []\<rparr>),
       next_ws = 1, token = Some ''tok''\<rparr>"
  by (simp add: used_store_eq concrete_defs)

lemma used_store_connect:
  "fst (connectWebSocket ''r2'' used_store) = Inr 0"
  "readyState (sockets (run [Ev_open 0] (snd (connectWebSocket ''r2'' used_store))) 0) = OPEN"
  "conv ''r2'' (run [Ev_open 0] (snd (connectWebSocket ''r2'' used_store)))
     = \<lparr>messages = [], isConnected = True, isStreaming = False, error = V_null\<rparr>"
  "fst (getConversation ''r2'' used_store) = 1"
proof -
  show "fst (connectWebSocket ''r2'' used_store) = Inr 0"
    by (simp add: used_store_eq concrete_defs)
  show "readyState (sockets (run [Ev_open 0] (snd (connectWebSocket ''r2'' used_store))) 0) = OPEN"
    by (simp add: used_store_opened)
  have "map_of (conversations (run [Ev_open 0] (snd (connectWebSocket ''r2'' used_store)))) ''r2''
      = Some 1"
    by (simp add: used_store_opened)
  then show "conv ''r2'' (run [Ev_open 0] (snd (connectWebSocket ''r2'' used_store)))
     = \<lparr>messages = [], isConnected = True, isStreaming = False, error = V_null\<rparr>"
    by (simp add: conv_heap used_store_opened)
  show "fst (getConversation ''r2'' used_store) = 1"
    by (simp add: used_store_eq concrete_defs)
qed

lemma used_store_conn:
  "connectWebSocket ''r2'' used_store = (Inr 0, snd (connectWebSocket ''r2'' used_store))"
  by (simp add: prod_eq_iff used_store_connect(1))

theorem stream_hello_for_key_witness:
  "fst (connectWebSocket ''r2'' used_store) = Inr 0
   \<and> fst (getConversation ''r2'' used_store) = 1
   \<and> messages (conv ''r2'' (run [Ev_message 0 (chunk ''Hel'') ''t1'',
                                    Ev_message 0 (chunk ''lo'') ''t2'',
                                    Ev_message 0 complete ''t3'']
                  (run [Ev_open 0] (snd (connectWebSocket ''r2'' used_store)))))
     = [\<lparr>role = Assistant, content = ''Hello'', timestamp = ''t1'', tool_uses = None\<rparr>]"
proof -
  have acts: "Call_clearAllConversations \<notin> set [Ev_open 0]"
    by simp
  have idle: "\<not> isStreaming (conv ''r2'' (run [Ev_open 0]
      (snd (connectWebSocket ''r2'' used_store))))"
    by (simp add: used_store_connect(3))
  have "messages (conv ''r2'' (run [Ev_message 0
            (JData \<lparr>d_type = Some ''chunk'', d_content = ''Hel'', d_tool = [], d_arguments = []\<rparr>)
            ''t1'', Ev_message 0
            (JData \<lparr>d_type = Some ''chunk'', d_content = ''lo'', d_tool = [], d_arguments = []\<rparr>)
            ''t2'', Ev_message 0
            (JData \<lparr>d_type = Some ''complete'', d_content = [], d_tool = [], d_arguments = []\<rparr>)
            ''t3''] (run [Ev_open 0] (snd (connectWebSocket ''r2'' used_store)))))
        = messages (conv ''r2'' (run [Ev_open 0] (snd (connectWebSocket ''r2'' used_store))))
          @ [\<lparr>role = Assistant, content = ''Hello'', timestamp = ''t1'', tool_uses = None\<rparr>]"
    by (rule stream_hello_for_key [OF used_store_conn acts used_store_connect(2) idle,
          THEN conjunct1]) simp_all
  then show ?thesis
    by (simp add: used_store_connect chunk_def complete_def)
qed

lemma mid_stream_store_eq:
  "mid_stream_store = \<lparr>conversations = [(''r1'', 0)], activeResearchId = None,
     websockets = [(''r1'', 0)],
     heap = (\<lambda>_. empty_state)
       (0 := \<lparr>messages = [\<lparr>role = Assistant, content = ''A'', timestamp = ''t1'',
                               tool_uses = None\<rparr>,
                            \<lparr>role = User, content = ''q'', timestamp = ''t2'',
                               tool_uses = None\<rparr>],
               isConnected = True, isStreaming = True, error = V_null\<rparr>),
     next_ref = 1,
     sockets = (\<lambda>_. \<lparr>readyState = CLOSED, researchId = [], conversation = 0, sent = []\<rparr>)
       (0 := \<lparr>readyState = OPEN, researchId = ''r1'', conversation = 0,
               sent = [\<lparr>message = ''q'',
                         history = [\<lparr>role = Assistant, content = ''A'', timestamp = ''t1'',
                                      tool_uses = None\<rparr>]\<rparr>]\<rparr>),
     next_ws = 1, token = Some ''tok''\<rparr>"
  by (simp add: mid_stream_store_def open_store_eq concrete_defs)

text \<open>
  Claim C5 as stated, "every chunk that arrives while \<open>isStreaming\<close> is true is appended to the
  last message, and no message is created", fails in \<open>mid_stream_store\<close>: the conversation
  is streaming, its last message is the user's question, and the fragment \<open>"B"\<close> becomes
  a third message.
\<close>

theorem chunk_while_streaming_counterexample:
  "isStreaming (heap mid_stream_store (conversation (sockets mid_stream_store 0)))
   \<and> messages (heap mid_stream_store (conversation (sockets mid_stream_store 0)))
       = [\<lparr>role = Assistant, content = ''A'', timestamp = ''t1'', tool_uses = None\<rparr>,
          \<lparr>role = User, content = ''q'', timestamp = ''t2'', tool_uses = None\<rparr>]
   \<and> messages (heap (onmessage 0 (chunk ''B'') ''t3'' mid_stream_store)
                  (conversation (sockets mid_stream_store 0)))
       = [\<lparr>role = Assistant, content = ''A'', timestamp = ''t1'', tool_uses = None\<rparr>,
          \<lparr>role = User, content = ''q'', timestamp = ''t2'', tool_uses = None\<rparr>,
          \<lparr>role = Assistant, content = ''B'', timestamp = ''t3'', tool_uses = None\<rparr>]"
  by (simp add: mid_stream_store_eq concrete_defs)

text \<open>
  Claim C5, amended. For every chunk event that arrives while \<open>isStreaming\<close> is true: if
  the transcript ends with an assistant message, the fragment is appended to the content
  of that message and no message is created; if the transcript is empty or ends with a
  message of another role, a new assistant message holding the fragment is appended. In
  both cases \<open>isStreaming\<close> stays true.
\<close>

theorem chunk_while_streaming:
  assumes d: "d_type d = Some ''chunk''"
    and str: "isStreaming (heap s (conversation (sockets s w)))"
  shows "(\<forall>ms m. messages (heap s (conversation (sockets s w))) = ms @ [m] \<and> role m = Assistant \<longrightarrow>
            messages (heap (onmessage w (JData d) now s) (conversation (sockets s w)))
              = ms @ [m\<lparr>content := content m @ d_content d\<rparr>])
       \<and> (messages (heap s (conversation (sockets s w))) = []
            \<or> role (last (messages (heap s (conversation (sockets s w))))) \<noteq> Assistant \<longrightarrow>
            messages (heap (onmessage w (JData d) now s) (conversation (sockets s w)))
              = messages (heap s (conversation (sockets s w)))
                @ [\<lparr>role = Assistant, content = d_content d, timestamp = now,
                     tool_uses = None\<rparr>])
       \<and> isStreaming (heap (onmessage w (JData d) now s) (conversation (sockets s w)))"
proof (cases "last_is_assistant (heap s (conversation (sockets s w)))")
  case True
  show ?thesis
    using True str
    by (auto simp: onmessage_chunk_append [OF d str True] heap_upd_conv append_last_def
        last_is_assistant_def)
next
  case False
  show ?thesis
    using False str
    by (auto simp: onmessage_chunk_push [OF d str False] heap_upd_conv push_def
        last_is_assistant_def)
qed

theorem chunk_while_streaming_witness:
  "isStreaming (heap mid_stream_store (conversation (sockets mid_stream_store 0)))
   \<and> role (last (messages (heap mid_stream_store (conversation (sockets mid_stream_store 0)))))
       \<noteq> Assistant
   \<and> messages (heap (onmessage 0 (chunk ''B'') ''t3'' mid_stream_store) 0)
       = messages (heap mid_stream_store 0)
         @ [\<lparr>role = Assistant, content = ''B'', timestamp = ''t3'', tool_uses = None\<rparr>]"
proof -
  have str: "isStreaming (heap mid_stream_store (conversation (sockets mid_stream_store 0)))"
    by (simp add: mid_stream_store_eq)
  have usr: "role (last (messages (heap mid_stream_store
               (conversation (sockets mid_stream_store 0))))) \<noteq> Assistant"
    by (simp add: mid_stream_store_eq)
  have a: "conversation (sockets mid_stream_store 0) = 0"
    by (simp add: mid_stream_store_eq)
  have "messages (heap (onmessage 0
            (JData \<lparr>d_type = Some ''chunk'', d_content = ''B'', d_tool = [], d_arguments = []\<rparr>)
            ''t3'' mid_stream_store) (conversation (sockets mid_stream_store 0)))
        = messages (heap mid_stream_store (conversation (sockets mid_stream_store 0)))
          @ [\<lparr>role = Assistant, content = ''B'', timestamp = ''t3'', tool_uses = None\<rparr>]"
    using chunk_while_streaming [OF _ str, of
        "\<lparr>d_type = Some ''chunk'', d_content = ''B'', d_tool = [], d_arguments = []\<rparr>" "''t3''",
        THEN conjunct2, THEN conjunct1] usr
    by simp
  then show ?thesis
    using str usr by (simp add: a chunk_def)
qed

text \<open>The handler on the conversation object it holds, for a chunk and an error.\<close>

lemma onmessage_chunk_error:
  assumes d1: "d_type d1 = Some ''chunk''" "d_content d1 = ''A''"
    and d2: "d_type d2 = Some ''error''" "d_content d2 = ''boom''"
  shows "messages (heap (onmessage w (JData d2) t2 (onmessage w (JData d1) t1 s))
                     (conversation (sockets s w)))
         = messages (heap (onmessage w (JData d1) t1 s) (conversation (sockets s w)))
       \<and> (\<not> isStreaming (heap s (conversation (sockets s w))) \<longrightarrow>
            messages (heap (onmessage w (JData d2) t2 (onmessage w (JData d1) t1 s))
                        (conversation (sockets s w)))
            = messages (heap s (conversation (sockets s w)))
              @ [\<lparr>role = Assistant, content = ''A'', timestamp = t1, tool_uses = None\<rparr>])
       \<and> error (heap (onmessage w (JData d2) t2 (onmessage w (JData d1) t1 s))
                  (conversation (sockets s w))) = V_string ''boom''
       \<and> \<not> isStreaming (heap (onmessage w (JData d2) t2 (onmessage w (JData d1) t1 s))
                  (conversation (sockets s w)))"
proof -
  let ?a = "conversation (sockets s w)"
  let ?s1 = "onmessage w (JData d1) t1 s"
  have a1: "conversation (sockets ?s1 w) = ?a"
    by (simp add: onmessage_sockets)
  have s2: "onmessage w (JData d2) t2 ?s1 =
      upd_conv ?a (\<lambda>c. c\<lparr>error := V_string ''boom'', isStreaming := False\<rparr>) ?s1"
    using onmessage_error [OF d2(1), of w t2 ?s1] a1 d2(2) by simp
  have idle: "\<not> isStreaming (heap s ?a) \<Longrightarrow>
      messages (heap ?s1 ?a) = messages (heap s ?a)
        @ [\<lparr>role = Assistant, content = ''A'', timestamp = t1, tool_uses = None\<rparr>]"
    using d1(2) by (simp add: onmessage_chunk_idle [OF d1(1)] heap_upd_conv)
  show ?thesis
    by (subst s2)+ (use idle in \<open>simp add: heap_upd_conv\<close>)
qed

text \<open>
  Claim C6 as stated, for every conversation with an open stream, fails in \<open>race_store\<close>:
  after \<open>chunk("A")\<close> and \<open>error("boom")\<close> on the open socket registered for \<open>r1\<close>, the
  transcript of \<open>r1\<close> is empty and its \<open>error\<close> field is still \<open>null\<close>.
\<close>

theorem stream_error_for_key_counterexample:
  "map_of (websockets race_store) ''r1'' = Some 0
   \<and> readyState (sockets race_store 0) = OPEN
   \<and> messages (conv ''r1'' (run [Ev_message 0 (chunk ''A'') ''t1'',
                                    Ev_message 0 (error_frame ''boom'') ''t2''] race_store)) = []
   \<and> error (conv ''r1'' (run [Ev_message 0 (chunk ''A'') ''t1'',
                                 Ev_message 0 (error_frame ''boom'') ''t2''] race_store)) = V_null"
proof -
  let ?S = "run [Ev_message 0 (chunk ''A'') ''t1'',
                 Ev_message 0 (error_frame ''boom'') ''t2''] race_store"
  have r: "?S = onmessage 0 (error_frame ''boom'') ''t2''
                  (onmessage 0 (chunk ''A'') ''t1'' race_store)"
    by (rule deliver_two) (rule race_store_facts)
  have "map_of (conversations ?S) ''r1'' = Some (Suc 0)"
    by (simp add: r onmessage_conversations race_store_facts)
  then have "conv ''r1'' ?S = heap ?S (Suc 0)"
    by (rule conv_heap)
  also have "\<dots> = heap race_store (Suc 0)"
    by (simp add: r onmessage_heap_other onmessage_sockets race_store_facts)
  finally have "conv ''r1'' ?S = empty_state"
    by (simp add: race_store_facts)
  then show ?thesis
    by (simp add: race_store_facts empty_state_def)
qed

text \<open>
  Claim C6, amended. Take any key \<open>k\<close> and any stream \<open>w\<close> that \<open>connectWebSocket(k)\<close> has
  made and that is open now, where \<open>clearAllConversations\<close> has not run since that call.
  After \<open>chunk("A")\<close> and then \<open>error("boom")\<close> on it, the \<open>error\<close> event has left the
  transcript of \<open>k\<close> exactly as the chunk left it, the \<open>error\<close> field of \<open>k\<close> is \<open>"boom"\<close> and
  \<open>isStreaming\<close> is false. When the conversation was not streaming before, the transcript
  is the old one followed by the partial assistant message with content \<open>"A"\<close>.
\<close>

theorem stream_error_for_key:
  assumes conn: "connectWebSocket k s0 = (Inr w, s1)"
    and acts: "Call_clearAllConversations \<notin> set acts"
    and opn: "readyState (sockets (run acts s1) w) = OPEN"
    and d1: "d_type d1 = Some ''chunk''" "d_content d1 = ''A''"
    and d2: "d_type d2 = Some ''error''" "d_content d2 = ''boom''"
  shows "messages (conv k (run [Ev_message w (JData d1) t1, Ev_message w (JData d2) t2]
                            (run acts s1)))
         = messages (conv k (run [Ev_message w (JData d1) t1] (run acts s1)))
       \<and> (\<not> isStreaming (conv k (run acts s1)) \<longrightarrow>
            messages (conv k (run [Ev_message w (JData d1) t1, Ev_message w (JData d2) t2]
                               (run acts s1)))
            = messages (conv k (run acts s1))
              @ [\<lparr>role = Assistant, content = ''A'', timestamp = t1, tool_uses = None\<rparr>])
       \<and> error (conv k (run [Ev_message w (JData d1) t1, Ev_message w (JData d2) t2]
                            (run acts s1))) = V_string ''boom''
       \<and> \<not> isStreaming (conv k (run [Ev_message w (JData d1) t1, Ev_message w (JData d2) t2]
                            (run acts s1)))"
proof -
  let ?s = "run acts s1"
  let ?a = "conversation (sockets ?s w)"
  let ?s1 = "onmessage w (JData d1) t1 ?s"
  let ?s2 = "onmessage w (JData d2) t2 ?s1"
  have wt: "writes_to w k ?s"
    using acts connectWebSocket_writes_to [OF conn] by (rule run_writes_to)
  have cv: "conv k ?s = heap ?s ?a"
    using wt by (rule writes_to_conv)
  have r1: "run [Ev_message w (JData d1) t1] ?s = ?s1"
    using opn by (simp add: run_def)
  have r2: "run [Ev_message w (JData d1) t1, Ev_message w (JData d2) t2] ?s = ?s2"
    using opn by (rule deliver_two)
  have "writes_to w k ?s1"
    by (intro onmessage_writes_to wt)
  then have "conv k ?s1 = heap ?s1 (conversation (sockets ?s1 w))"
    by (rule writes_to_conv)
  then have cv1: "conv k ?s1 = heap ?s1 ?a"
    by (simp add: onmessage_sockets)
  have "writes_to w k ?s2"
    by (intro onmessage_writes_to wt)
  then have "conv k ?s2 = heap ?s2 (conversation (sockets ?s2 w))"
    by (rule writes_to_conv)
  then have cv2: "conv k ?s2 = heap ?s2 ?a"
    by (simp add: onmessage_sockets)
  show ?thesis
    unfolding r1 r2 cv cv1 cv2 by (rule onmessage_chunk_error [OF d1 d2])
qed

theorem stream_error_for_key_witness:
  "fst (connectWebSocket ''r2'' used_store) = Inr 0
   \<and> messages (conv ''r2'' (run [Ev_message 0 (chunk ''A'') ''t1'',
                                    Ev_message 0 (error_frame ''boom'') ''t2'']
                  (run [Ev_open 0] (snd (connectWebSocket ''r2'' used_store)))))
     = [\<lparr>role = Assistant, content = ''A'', timestamp = ''t1'', tool_uses = None\<rparr>]
   \<and> error (conv ''r2'' (run [Ev_message 0 (chunk ''A'') ''t1'',
                                 Ev_message 0 (error_frame ''boom'') ''t2'']
                  (run [Ev_open 0] (snd (connectWebSocket ''r2'' used_store)))))
     = V_string ''boom''"
proof -
  have acts: "Call_clearAllConversations \<notin> set [Ev_open 0]"
    by simp
  note th = stream_error_for_key [OF used_store_conn acts used_store_connect(2), of
      "\<lparr>d_type = Some ''chunk'', d_content = ''A'', d_tool = [], d_arguments = []\<rparr>"
      "\<lparr>d_type = Some ''error'', d_content = ''boom'', d_tool = [], d_arguments = []\<rparr>"
      "''t1''" "''t2''"]
  have m: "messages (conv ''r2'' (run [Ev_message 0
            (JData \<lparr>d_type = Some ''chunk'', d_content = ''A'', d_tool = [], d_arguments = []\<rparr>)
            ''t1'', Ev_message 0
            (JData \<lparr>d_type = Some ''error'', d_content = ''boom'', d_tool = [], d_arguments = []\<rparr>)
            ''t2''] (run [Ev_open 0] (snd (connectWebSocket ''r2'' used_store)))))
        = messages (conv ''r2'' (run [Ev_open 0] (snd (connectWebSocket ''r2'' used_store))))
          @ [\<lparr>role = Assistant, content = ''A'', timestamp = ''t1'', tool_uses = None\<rparr>]"
    using th [THEN conjunct2, THEN conjunct1] by (simp add: used_store_connect(3))
  have e: "error (conv ''r2'' (run [Ev_message 0
            (JData \<lparr>d_type = Some ''chunk'', d_content = ''A'', d_tool = [], d_arguments = []\<rparr>)
            ''t1'', Ev_message 0
            (JData \<lparr>d_type = Some ''error'', d_content = ''boom'', d_tool = [], d_arguments = []\<rparr>)
            ''t2''] (run [Ev_open 0] (snd (connectWebSocket ''r2'' used_store)))))
        = V_string ''boom''"
    using th [THEN conjunct2, THEN conjunct2, THEN conjunct1] by simp
  show ?thesis
    using m e by (simp add: used_store_connect chunk_def error_frame_def)
qed

text \<open>
  Claim C8. A frame that does not parse (or parses to \<open>null\<close>) raises inside the \<open>try\<close>
  block and the handler returns with the store unchanged; a frame whose \<open>type\<close> is none of
  \<open>chunk\<close>, \<open>complete\<close>, \<open>error\<close>, \<open>tool_use\<close> raises nothing and leaves the store
  unchanged. In particular no \<open>error\<close> field is set.
\<close>

theorem malformed_frames_ignored:
  "(ev = BadJSON \<or> ev = JNull \<longrightarrow>
      (\<exists>e. onmessage_try w ev now s = Inl e) \<and> onmessage w ev now s = s)
   \<and> (d_type d \<noteq> Some ''chunk'' \<and> d_type d \<noteq> Some ''complete'' \<and> d_type d \<noteq> Some ''error''
        \<and> d_type d \<noteq> Some ''tool_use'' \<longrightarrow>
      onmessage_try w (JData d) now s = Inr s \<and> onmessage w (JData d) now s = s)"
  by (auto simp: onmessage_def onmessage_try_def Let_def)

theorem malformed_frames_ignored_witness:
  "onmessage 0 BadJSON ''t'' mid_stream_store = mid_stream_store
   \<and> onmessage 0 JNull ''t'' mid_stream_store = mid_stream_store
   \<and> onmessage 0 (JData \<lparr>d_type = Some ''ping'', d_content = ''x'', d_tool = [],
                           d_arguments = []\<rparr>) ''t'' mid_stream_store = mid_stream_store
   \<and> onmessage 0 (JData \<lparr>d_type = None, d_content = [], d_tool = [],
                           d_arguments = []\<rparr>) ''t'' mid_stream_store = mid_stream_store"
  using malformed_frames_ignored [of BadJSON 0 "''t''" mid_stream_store
          "\<lparr>d_type = Some ''ping'', d_content = ''x'', d_tool = [], d_arguments = []\<rparr>"]
        malformed_frames_ignored [of JNull 0 "''t''" mid_stream_store
          "\<lparr>d_type = None, d_content = [], d_tool = [], d_arguments = []\<rparr>"]
  by simp

section \<open>The request/response send\<close>

lemma sendMessage_begin_eq:
  "sendMessage_begin k text now s =
     (if no_token (token s)
      then (Inl (Error ''Not authenticated''),
            upd_conv (fst (getConversation k s))
              (\<lambda>c. c\<lparr>messages := messages c @ [\<lparr>role = User, content = text, timestamp = now,
                                                 tool_uses = None\<rparr>],
                      error := V_string ''Failed to send message''\<rparr>)
              (snd (getConversation k s)))
      else (Inr (fst (getConversation k s)),
            upd_conv (fst (getConversation k s))
              (\<lambda>c. c\<lparr>messages := messages c @ [\<lparr>role = User, content = text, timestamp = now,
                                                 tool_uses = None\<rparr>],
                      error := V_null\<rparr>)
              (snd (getConversation k s))))"
  by (simp add: sendMessage_begin_def split_beta Let_def upd_conv_def push_def catch_error_def
      gc_fields)

text \<open>
  Claim C2. Whenever \<open>sendMessage(k, text)\<close> resolves, the request was answered with a
  response \<open>d\<close>, and the messages of conversation \<open>k\<close> are the ones it had before the call
  followed by exactly two entries, in this order: the user message with the sent text
  (stamped with the call time) and the assistant message with the content, timestamp and
  tool uses of the response. No other conversation object changes. Here the call and its
  resumption run back to back; whatever has happened to the store during the \<open>await\<close>, the
  resumption on its own appends exactly the assistant message.
\<close>

theorem sendMessage_success:
  assumes ok: "fst (sendMessage k text now r s) = None"
  shows "\<exists>d. r = Resolved d
       \<and> messages (conv k (snd (sendMessage k text now r s)))
         = messages (conv k s)
           @ [\<lparr>role = User, content = text, timestamp = now, tool_uses = None\<rparr>,
              \<lparr>role = Assistant, content = r_content d, timestamp = r_timestamp d,
                 tool_uses = r_tool_uses d\<rparr>]
       \<and> (\<forall>b. b \<noteq> fst (getConversation k s) \<longrightarrow>
             heap (snd (sendMessage k text now r s)) b = heap (snd (getConversation k s)) b)
       \<and> (\<forall>a s2. messages (heap (snd (sendMessage_resume a (Resolved d) s2)) a)
             = messages (heap s2 a)
               @ [\<lparr>role = Assistant, content = r_content d, timestamp = r_timestamp d,
                    tool_uses = r_tool_uses d\<rparr>])"
proof (cases r)
  case (Rejected detail)
  with ok show ?thesis
    by (simp add: sendMessage_def sendMessage_begin_eq sendMessage_resume_def split: if_splits)
next
  case (Resolved d)
  let ?a = "fst (getConversation k s)"
  let ?s1 = "snd (getConversation k s)"
  let ?u = "\<lparr>role = User, content = text, timestamp = now, tool_uses = None\<rparr>"
  let ?m = "\<lparr>role = Assistant, content = r_content d, timestamp = r_timestamp d,
              tool_uses = r_tool_uses d\<rparr>"
  from ok have tok: "\<not> no_token (token s)"
    by (auto simp: sendMessage_def sendMessage_begin_eq)
  have s': "snd (sendMessage k text now r s) =
      upd_conv ?a (push ?m)
        (upd_conv ?a (\<lambda>c. c\<lparr>messages := messages c @ [?u], error := V_null\<rparr>) ?s1)"
    using tok Resolved
    by (simp add: sendMessage_def sendMessage_begin_eq sendMessage_resume_def)
  have "conversations (snd (sendMessage k text now r s)) = conversations ?s1"
    by (simp add: s' upd_conv_fields)
  then have "conv k (snd (sendMessage k text now r s)) = heap (snd (sendMessage k text now r s)) ?a"
    by (rule conv_after)
  then have "messages (conv k (snd (sendMessage k text now r s))) = messages (conv k s) @ [?u, ?m]"
    by (simp add: s' heap_upd_conv push_def conv_def)
  moreover have "\<forall>b. b \<noteq> ?a \<longrightarrow> heap (snd (sendMessage k text now r s)) b = heap ?s1 b"
    by (simp add: s' heap_upd_conv)
  moreover have "\<forall>a s2. messages (heap (snd (sendMessage_resume a (Resolved d) s2)) a)
      = messages (heap s2 a) @ [?m]"
    by (simp add: sendMessage_resume_def heap_upd_conv push_def)
  ultimately show ?thesis
    using Resolved by simp
qed

theorem sendMessage_success_witness:
  "fst (sendMessage ''r1'' ''hi'' ''t1''
          (Resolved \<lparr>r_content = ''hello'', r_timestamp = ''t2'', r_tool_uses = None\<rparr>)
          (init_store\<lparr>token := Some ''tok''\<rparr>)) = None
   \<and> messages (conv ''r1'' (snd (sendMessage ''r1'' ''hi'' ''t1''
          (Resolved \<lparr>r_content = ''hello'', r_timestamp = ''t2'', r_tool_uses = None\<rparr>)
          (init_store\<lparr>token := Some ''tok''\<rparr>))))
     = [\<lparr>role = User, content = ''hi'', timestamp = ''t1'', tool_uses = None\<rparr>,
        \<lparr>role = Assistant, content = ''hello'', timestamp = ''t2'', tool_uses = None\<rparr>]"
proof -
  let ?s = "init_store\<lparr>token := Some ''tok''\<rparr>"
  let ?r = "Resolved \<lparr>r_content = ''hello'', r_timestamp = ''t2'', r_tool_uses = None\<rparr>"
  have ok: "fst (sendMessage ''r1'' ''hi'' ''t1'' ?r ?s) = None"
    by (simp add: sendMessage_def sendMessage_begin_eq sendMessage_resume_def no_token_def
        init_store_def)
  have old: "messages (conv ''r1'' ?s) = []"
    by (simp add: conv_def getConversation_def init_store_def has_def Let_def empty_state_def)
  from sendMessage_success [OF ok] old ok show ?thesis
    by auto
qed

text \<open>
  Claim C10. With no credential, \<open>sendMessage(k, text)\<close> is rejected with the error
  \<open>Not authenticated\<close>, whatever the server would have answered; the user message has been
  appended before the check and is not rolled back, so the transcript is exactly one entry
  longer, and the \<open>error\<close> field is the fallback text \<open>Failed to send message\<close>.
\<close>

theorem sendMessage_no_token:
  assumes "no_token (token s)"
  shows "fst (sendMessage k text now r s) = Some (Error ''Not authenticated'')
       \<and> messages (conv k (snd (sendMessage k text now r s)))
         = messages (conv k s)
           @ [\<lparr>role = User, content = text, timestamp = now, tool_uses = None\<rparr>]
       \<and> length (messages (conv k (snd (sendMessage k text now r s))))
         = Suc (length (messages (conv k s)))
       \<and> error (conv k (snd (sendMessage k text now r s))) = V_string ''Failed to send message''"
proof -
  let ?a = "fst (getConversation k s)"
  let ?s1 = "snd (getConversation k s)"
  let ?u = "\<lparr>role = User, content = text, timestamp = now, tool_uses = None\<rparr>"
  have res: "sendMessage k text now r s =
      (Some (Error ''Not authenticated''),
       upd_conv ?a (\<lambda>c. c\<lparr>messages := messages c @ [?u],
                           error := V_string ''Failed to send message''\<rparr>) ?s1)"
    using assms by (simp add: sendMessage_def sendMessage_begin_eq)
  have "conversations (snd (sendMessage k text now r s)) = conversations ?s1"
    by (simp add: res upd_conv_fields)
  then have "conv k (snd (sendMessage k text now r s)) = heap (snd (sendMessage k text now r s)) ?a"
    by (rule conv_after)
  then show ?thesis
    by (simp add: res heap_upd_conv conv_def)
qed

theorem sendMessage_no_token_witness:
  "no_token (token logged_out_store)
   \<and> messages (conv ''r1'' logged_out_store) = []
   \<and> fst (sendMessage ''r1'' ''hi'' ''t1'' (Rejected V_undefined) logged_out_store)
       = Some (Error ''Not authenticated'')
   \<and> messages (conv ''r1'' (snd (sendMessage ''r1'' ''hi'' ''t1'' (Rejected V_undefined) logged_out_store)))
       = [\<lparr>role = User, content = ''hi'', timestamp = ''t1'', tool_uses = None\<rparr>]
   \<and> error (conv ''r1'' (snd (sendMessage ''r1'' ''hi'' ''t1'' (Rejected V_undefined) logged_out_store)))
       = V_string ''Failed to send message''"
proof -
  have s: "logged_out_store = open_store\<lparr>token := None\<rparr>"
    by (simp add: logged_out_store_def run_def)
  have nt: "no_token (token logged_out_store)"
    by (simp add: s no_token_def)
  have old: "messages (conv ''r1'' logged_out_store) = []"
    by (simp add: s open_store_eq conv_def getConversation_def has_def Let_def)
  from sendMessage_no_token [OF nt, of "''r1''" "''hi''" "''t1''" "Rejected V_undefined"] nt old
  show ?thesis by simp
qed

section \<open>The streaming send and the connection\<close>

lemma sendWebSocketMessage_open:
  assumes "map_of (websockets s) k = Some w" "readyState (sockets s w) = OPEN"
  shows "sendWebSocketMessage k text now s =
     (None,
      upd_ws w (\<lambda>x. x\<lparr>sent := sent x @
                  [\<lparr>message = text, history = messages (conv k s)\<rparr>]\<rparr>)
        (upd_conv (fst (getConversation k s))
           (push \<lparr>role = User, content = text, timestamp = now, tool_uses = None\<rparr>)
           (snd (getConversation k s))))"
  using assms
  by (simp add: sendWebSocketMessage_def split_beta Let_def gc_fields heap_upd_conv push_def
      conv_def)

lemma sendWebSocketMessage_not_open:
  assumes "\<not> (\<exists>w. map_of (websockets s) k = Some w \<and> readyState (sockets s w) = OPEN)"
  shows "sendWebSocketMessage k text now s =
     (Some (Error ''WebSocket not connected''), snd (getConversation k s))"
proof (cases "map_of (websockets s) k")
  case None
  then show ?thesis
    by (simp add: sendWebSocketMessage_def split_beta Let_def gc_fields)
next
  case (Some w)
  with assms have "readyState (sockets s w) \<noteq> OPEN"
    by simp
  with Some show ?thesis
    by (simp add: sendWebSocketMessage_def split_beta Let_def gc_fields)
qed

lemma connectWebSocket_unauthenticated_eq:
  assumes "no_token (token s)"
  shows "fst (connectWebSocket k s) = Inl (Error ''Not authenticated'')
       \<and> conversations (snd (connectWebSocket k s)) = conversations (snd (getConversation k s))
       \<and> heap (snd (connectWebSocket k s)) = heap (snd (getConversation k s))"
  using assms
  by (simp add: connectWebSocket_def split_beta Let_def gc_fields ws_close_fields)

lemma sendMessage_rejected_eq:
  assumes "\<not> no_token (token s)"
  shows "sendMessage k text now (Rejected detail) s =
     (Some (AxiosError detail),
      upd_conv (fst (getConversation k s))
        (\<lambda>c. c\<lparr>error := (if truthy detail then detail
                              else V_string ''Failed to send message'')\<rparr>)
        (upd_conv (fst (getConversation k s))
           (\<lambda>c. c\<lparr>messages := messages c @ [\<lparr>role = User, content = text, timestamp = now,
                                              tool_uses = None\<rparr>],
                   error := V_null\<rparr>)
           (snd (getConversation k s))))"
  using assms
  by (simp add: sendMessage_def sendMessage_begin_eq sendMessage_resume_def catch_error_def)

lemma sendMessage_unauthenticated_eq:
  assumes "no_token (token s)"
  shows "sendMessage k text now r s =
     (Some (Error ''Not authenticated''),
      upd_conv (fst (getConversation k s))
        (\<lambda>c. c\<lparr>messages := messages c @ [\<lparr>role = User, content = text, timestamp = now,
                                           tool_uses = None\<rparr>],
                error := V_string ''Failed to send message''\<rparr>)
        (snd (getConversation k s)))"
  using assms by (simp add: sendMessage_def sendMessage_begin_eq)

lemma closing_store_facts:
  "map_of (websockets (snd (connectWebSocket ''r1'' logged_out_store))) ''r1'' = Some 0"
  "readyState (sockets (snd (connectWebSocket ''r1'' logged_out_store)) 0) = CLOSING"
  "map_of (conversations (snd (connectWebSocket ''r1'' logged_out_store))) ''r1'' = Some 0"
  "error (heap (snd (connectWebSocket ''r1'' logged_out_store)) 0) = V_null"
  by (simp_all add: logged_out_store_def open_store_eq concrete_defs)

text \<open>
  Claim C7. When the socket registered for \<open>k\<close> is open, \<open>sendWebSocketMessage(k, text)\<close>
  returns normally, appends to the transcript of \<open>k\<close> the user message with the text and the
  call time, and sends on that socket one frame \<open>{message, history}\<close> whose \<open>history\<close> is the
  transcript as it stood before the call.
\<close>

theorem sendWebSocketMessage_frame:
  assumes reg: "map_of (websockets s) k = Some w"
    and opn: "readyState (sockets s w) = OPEN"
  shows "fst (sendWebSocketMessage k text now s) = None
       \<and> messages (conv k (snd (sendWebSocketMessage k text now s)))
         = messages (conv k s)
           @ [\<lparr>role = User, content = text, timestamp = now, tool_uses = None\<rparr>]
       \<and> sent (sockets (snd (sendWebSocketMessage k text now s)) w)
         = sent (sockets s w) @ [\<lparr>message = text, history = messages (conv k s)\<rparr>]"
proof -
  let ?s' = "snd (sendWebSocketMessage k text now s)"
  note eq = sendWebSocketMessage_open [OF reg opn, of "text" now]
  have "conversations ?s' = conversations (snd (getConversation k s))"
    by (simp add: eq upd_ws_fields upd_conv_fields)
  then have "conv k ?s' = heap ?s' (fst (getConversation k s))"
    by (rule conv_after)
  then show ?thesis
    by (simp add: eq upd_ws_fields heap_upd_conv push_def sockets_upd_ws upd_conv_fields
        gc_fields conv_def)
qed

theorem sendWebSocketMessage_frame_witness:
  "map_of (websockets mid_stream_store) ''r1'' = Some 0
   \<and> readyState (sockets mid_stream_store 0) = OPEN
   \<and> fst (sendWebSocketMessage ''r1'' ''again'' ''t3'' mid_stream_store) = None
   \<and> sent (sockets (snd (sendWebSocketMessage ''r1'' ''again'' ''t3'' mid_stream_store)) 0)
     = [\<lparr>message = ''q'',
          history = [\<lparr>role = Assistant, content = ''A'', timestamp = ''t1'',
                       tool_uses = None\<rparr>]\<rparr>,
        \<lparr>message = ''again'',
          history = [\<lparr>role = Assistant, content = ''A'', timestamp = ''t1'',
                       tool_uses = None\<rparr>,
                     \<lparr>role = User, content = ''q'', timestamp = ''t2'',
                       tool_uses = None\<rparr>]\<rparr>]"
proof -
  have reg: "map_of (websockets mid_stream_store) ''r1'' = Some 0"
    by (simp add: mid_stream_store_eq)
  have opn: "readyState (sockets mid_stream_store 0) = OPEN"
    by (simp add: mid_stream_store_eq)
  have old: "messages (conv ''r1'' mid_stream_store)
      = [\<lparr>role = Assistant, content = ''A'', timestamp = ''t1'', tool_uses = None\<rparr>,
         \<lparr>role = User, content = ''q'', timestamp = ''t2'', tool_uses = None\<rparr>]"
    "sent (sockets mid_stream_store 0)
      = [\<lparr>message = ''q'',
           history = [\<lparr>role = Assistant, content = ''A'', timestamp = ''t1'',
                        tool_uses = None\<rparr>]\<rparr>]"
    by (simp_all add: mid_stream_store_eq conv_def getConversation_def has_def Let_def)
  from sendWebSocketMessage_frame [OF reg opn, of "''again''" "''t3''"] reg opn old
  show ?thesis by simp
qed


lemma logged_out_store_eq: "logged_out_store = open_store\<lparr>token := None\<rparr>"
  by (simp add: logged_out_store_def run_def)

text \<open>
  Claim C3 as stated, "with no credential, \<open>connectWebSocket\<close> rejects without closing an existing
  connection for the key", fails in \<open>logged_out_store\<close>: the socket registered for \<open>r1\<close> is
  open before the call and closing after it.
\<close>

theorem connectWebSocket_no_token_counterexample:
  "no_token (token logged_out_store)
   \<and> map_of (websockets logged_out_store) ''r1'' = Some 0
   \<and> readyState (sockets logged_out_store 0) = OPEN
   \<and> fst (connectWebSocket ''r1'' logged_out_store) = Inl (Error ''Not authenticated'')
   \<and> readyState (sockets (snd (connectWebSocket ''r1'' logged_out_store)) 0) = CLOSING"
  by (simp add: logged_out_store_eq open_store_eq concrete_defs)

text \<open>
  Claim C3, amended. With no credential, \<open>connectWebSocket(k)\<close> rejects with the error
  \<open>Not authenticated\<close>; it makes no new socket and leaves the registry \<open>websockets\<close> as it
  was. Before the check it has called \<open>close()\<close> on the socket registered for \<open>k\<close>, if any:
  that socket is closing afterwards if it was connecting or open. No other socket changes.
\<close>

theorem connectWebSocket_no_token:
  assumes "no_token (token s)"
  shows "fst (connectWebSocket k s) = Inl (Error ''Not authenticated'')
       \<and> next_ws (snd (connectWebSocket k s)) = next_ws s
       \<and> websockets (snd (connectWebSocket k s)) = websockets s
       \<and> (\<forall>w. map_of (websockets s) k = Some w \<longrightarrow>
             readyState (sockets (snd (connectWebSocket k s)) w)
               = (if readyState (sockets s w) = CONNECTING \<or> readyState (sockets s w) = OPEN
                  then CLOSING else readyState (sockets s w)))
       \<and> (\<forall>w. map_of (websockets s) k \<noteq> Some w \<longrightarrow>
             sockets (snd (connectWebSocket k s)) w = sockets s w)"
  using assms
  by (auto simp: connectWebSocket_def split_beta Let_def has_def gc_fields ws_close_fields
      ws_close_def sockets_upd_ws upd_ws_fields)

theorem connectWebSocket_no_token_witness:
  "no_token (token logged_out_store)
   \<and> fst (connectWebSocket ''r1'' logged_out_store) = Inl (Error ''Not authenticated'')
   \<and> next_ws (snd (connectWebSocket ''r1'' logged_out_store)) = 1
   \<and> websockets (snd (connectWebSocket ''r1'' logged_out_store)) = [(''r1'', 0)]"
proof -
  have nt: "no_token (token logged_out_store)"
    by (simp add: logged_out_store_eq no_token_def)
  have old: "next_ws logged_out_store = 1" "websockets logged_out_store = [(''r1'', 0)]"
    by (simp_all add: logged_out_store_eq open_store_eq)
  from connectWebSocket_no_token [OF nt, of "''r1''"] nt old show ?thesis
    by simp
qed

text \<open>
  Claim C4 as stated, "every error is recorded on the \<open>error\<close> field, in particular that of a
  streaming send with no open connection", fails in \<open>init_store\<close>: the send raises
  \<open>WebSocket not connected\<close> and the \<open>error\<close> field of the conversation is still \<open>null\<close>.
\<close>

theorem errors_recorded_counterexample:
  "fst (sendWebSocketMessage ''r1'' ''hi'' ''t1'' init_store)
     = Some (Error ''WebSocket not connected'')
   \<and> error (conv ''r1'' init_store) = V_null
   \<and> error (conv ''r1'' (snd (sendWebSocketMessage ''r1'' ''hi'' ''t1'' init_store))) = V_null"
  by (simp add: conv_def concrete_defs)

text \<open>
  Claim C4, amended. A \<open>sendMessage\<close> with no credential is rejected with
  \<open>Not authenticated\<close> and records the fallback text \<open>Failed to send message\<close> on the
  conversation's \<open>error\<close> field; a \<open>sendMessage\<close> whose request fails is rejected with that
  failure and records the \<open>detail\<close> of the response when it is truthy, whatever its shape,
  and the fallback text otherwise; \<open>ws.onerror\<close> records \<open>WebSocket connection error\<close> on
  the conversation object its socket holds. A \<open>sendWebSocketMessage\<close> for a key with no
  registered socket, or with one that is not open, raises \<open>WebSocket not connected\<close>, and a
  \<open>connectWebSocket\<close> with no credential rejects with \<open>Not authenticated\<close>; these two only
  raise: the conversation \<open>getConversation(k)\<close> returns is the same afterwards, \<open>error\<close>
  field included.
\<close>

theorem errors_recorded:
  "(no_token (token s) \<longrightarrow>
      fst (sendMessage k text now r s) = Some (Error ''Not authenticated'')
      \<and> error (conv k (snd (sendMessage k text now r s))) = V_string ''Failed to send message'')
   \<and> (\<not> no_token (token s) \<longrightarrow>
      fst (sendMessage k text now (Rejected detail) s) = Some (AxiosError detail)
      \<and> error (conv k (snd (sendMessage k text now (Rejected detail) s)))
          = (if truthy detail then detail else V_string ''Failed to send message''))
   \<and> error (heap (snd (onerror w s)) (conversation (sockets s w)))
       = V_string ''WebSocket connection error''
   \<and> (\<not> (\<exists>v. map_of (websockets s) k = Some v \<and> readyState (sockets s v) = OPEN) \<longrightarrow>
       fst (sendWebSocketMessage k text now s) = Some (Error ''WebSocket not connected'')
       \<and> conv k (snd (sendWebSocketMessage k text now s)) = conv k s)
   \<and> (no_token (token s) \<longrightarrow>
       fst (connectWebSocket k s) = Inl (Error ''Not authenticated'')
       \<and> conv k (snd (connectWebSocket k s)) = conv k s)"
proof -
  let ?a = "fst (getConversation k s)"
  let ?s1 = "snd (getConversation k s)"
  have A: "no_token (token s) \<longrightarrow>
      fst (sendMessage k text now r s) = Some (Error ''Not authenticated'')
      \<and> error (conv k (snd (sendMessage k text now r s))) = V_string ''Failed to send message''"
  proof
    assume nt: "no_token (token s)"
    note eq = sendMessage_unauthenticated_eq [OF nt, of k "text" now r]
    have "conversations (snd (sendMessage k text now r s)) = conversations ?s1"
      by (simp add: eq upd_conv_fields)
    then have "conv k (snd (sendMessage k text now r s))
        = heap (snd (sendMessage k text now r s)) ?a"
      by (rule conv_after)
    then show "fst (sendMessage k text now r s) = Some (Error ''Not authenticated'')
      \<and> error (conv k (snd (sendMessage k text now r s))) = V_string ''Failed to send message''"
      by (simp add: eq heap_upd_conv)
  qed
  have B: "\<not> no_token (token s) \<longrightarrow>
      fst (sendMessage k text now (Rejected detail) s) = Some (AxiosError detail)
      \<and> error (conv k (snd (sendMessage k text now (Rejected detail) s)))
          = (if truthy detail then detail else V_string ''Failed to send message'')"
  proof
    assume tok: "\<not> no_token (token s)"
    note eq = sendMessage_rejected_eq [OF tok, of k "text" now detail]
    have "conversations (snd (sendMessage k text now (Rejected detail) s)) = conversations ?s1"
      by (simp add: eq upd_conv_fields)
    then have "conv k (snd (sendMessage k text now (Rejected detail) s))
        = heap (snd (sendMessage k text now (Rejected detail) s)) ?a"
      by (rule conv_after)
    then show "fst (sendMessage k text now (Rejected detail) s) = Some (AxiosError detail)
      \<and> error (conv k (snd (sendMessage k text now (Rejected detail) s)))
          = (if truthy detail then detail else V_string ''Failed to send message'')"
      by (simp add: eq heap_upd_conv)
  qed
  have C: "error (heap (snd (onerror w s)) (conversation (sockets s w)))
       = V_string ''WebSocket connection error''"
    by (simp add: onerror_def heap_upd_conv)
  have D: "\<not> (\<exists>v. map_of (websockets s) k = Some v \<and> readyState (sockets s v) = OPEN) \<longrightarrow>
       fst (sendWebSocketMessage k text now s) = Some (Error ''WebSocket not connected'')
       \<and> conv k (snd (sendWebSocketMessage k text now s)) = conv k s"
  proof
    assume no: "\<not> (\<exists>v. map_of (websockets s) k = Some v \<and> readyState (sockets s v) = OPEN)"
    show "fst (sendWebSocketMessage k text now s) = Some (Error ''WebSocket not connected'')
       \<and> conv k (snd (sendWebSocketMessage k text now s)) = conv k s"
      by (simp add: sendWebSocketMessage_not_open [OF no] conv_def gc_idem)
  qed
  have E: "no_token (token s) \<longrightarrow>
       fst (connectWebSocket k s) = Inl (Error ''Not authenticated'')
       \<and> conv k (snd (connectWebSocket k s)) = conv k s"
  proof
    assume nt: "no_token (token s)"
    note eq = connectWebSocket_unauthenticated_eq [OF nt, of k]
    from eq have "conv k (snd (connectWebSocket k s)) = heap (snd (connectWebSocket k s)) ?a"
      by (intro conv_after) simp
    with eq show "fst (connectWebSocket k s) = Inl (Error ''Not authenticated'')
       \<and> conv k (snd (connectWebSocket k s)) = conv k s"
      by (simp add: conv_def)
  qed
  from A B C D E show ?thesis by blast
qed

theorem errors_recorded_witness:
  "\<not> no_token (token open_store)
   \<and> error (conv ''r1'' (snd (sendMessage ''r1'' ''hi'' ''t1''
        (Rejected (V_array [V_object [(''msg'', V_string ''Field required'')]])) open_store)))
     = V_array [V_object [(''msg'', V_string ''Field required'')]]
   \<and> readyState (sockets (snd (connectWebSocket ''r1'' logged_out_store)) 0) = CLOSING
   \<and> fst (sendWebSocketMessage ''r1'' ''hi'' ''t1'' (snd (connectWebSocket ''r1'' logged_out_store)))
     = Some (Error ''WebSocket not connected'')
   \<and> error (conv ''r1'' (snd (sendWebSocketMessage ''r1'' ''hi'' ''t1''
        (snd (connectWebSocket ''r1'' logged_out_store))))) = V_null"
proof -
  let ?c = "snd (connectWebSocket ''r1'' logged_out_store)"
  let ?d = "V_array [V_object [(''msg'', V_string ''Field required'')]]"
  have tok: "\<not> no_token (token open_store)"
    by (simp add: open_store_eq no_token_def)
  have no: "\<not> (\<exists>v. map_of (websockets ?c) ''r1'' = Some v \<and> readyState (sockets ?c v) = OPEN)"
    by (simp add: closing_store_facts)
  have old: "error (conv ''r1'' ?c) = V_null"
    by (simp add: conv_heap [OF closing_store_facts(3)] closing_store_facts)
  have e1: "error (conv ''r1'' (snd (sendMessage ''r1'' ''hi'' ''t1'' (Rejected ?d) open_store)))
      = ?d"
    using errors_recorded [of open_store "''r1''" "''hi''" "''t1''" _ ?d, THEN conjunct2,
        THEN conjunct1] tok
    by simp
  have e2: "fst (sendWebSocketMessage ''r1'' ''hi'' ''t1'' ?c)
        = Some (Error ''WebSocket not connected'')
      \<and> conv ''r1'' (snd (sendWebSocketMessage ''r1'' ''hi'' ''t1'' ?c)) = conv ''r1'' ?c"
    using errors_recorded [of ?c "''r1''" "''hi''" "''t1''", THEN conjunct2, THEN conjunct2,
        THEN conjunct2, THEN conjunct1] no
    by blast
  show ?thesis
    using tok e1 e2 old by (simp add: closing_store_facts)
qed

section \<open>The registry of conversations\<close>

text \<open>
  Claim C9 as stated, "never more than one ConversationState per key, no duplicate state
  is ever created", fails in \<open>race_store\<close>, where \<open>r1\<close> is the only key ever used: two
  conversation objects have been made for it, the open socket registered for \<open>r1\<close> holds
  object \<open>0\<close>, and \<open>getConversation('r1')\<close> returns object \<open>1\<close>.
\<close>

theorem getConversation_identity_counterexample:
  "conversations race_store = [(''r1'', 1)]
   \<and> next_ref race_store = 2
   \<and> map_of (websockets race_store) ''r1'' = Some 0
   \<and> readyState (sockets race_store 0) = OPEN
   \<and> researchId (sockets race_store 0) = ''r1''
   \<and> conversation (sockets race_store 0) = 0
   \<and> fst (getConversation ''r1'' race_store) = 1"
  by (simp add: gc_old [OF race_store_facts(4)] race_store_facts) (simp add: race_store_eq)

text \<open>
  Claim C9, amended. Two calls of \<open>getConversation(k)\<close> in a row return the same reference,
  the one entered for \<open>k\<close> in the registry, and the second call changes nothing. No call or
  event other than \<open>clearAllConversations\<close> changes the object entered for a key; every
  call or event either leaves the registry and the allocator as they are, or is
  \<open>clearAllConversations\<close> and empties the registry, or allocates exactly one object and
  enters it for a key that had none. After any sequence of calls and events from the
  initial store the registry has one entry per key, no object is entered under two keys,
  and every entry is an allocated object.
\<close>

theorem getConversation_identity:
  "fst (getConversation k (snd (getConversation k s))) = fst (getConversation k s)
   \<and> snd (getConversation k (snd (getConversation k s))) = snd (getConversation k s)
   \<and> map_of (conversations (snd (getConversation k s))) k = Some (fst (getConversation k s))
   \<and> (act \<noteq> Call_clearAllConversations \<and> map_of (conversations s) k = Some a \<longrightarrow>
        map_of (conversations (step act s)) k = Some a)
   \<and> (same_registry s (step act s)
        \<or> (act = Call_clearAllConversations \<and> conversations (step act s) = []
             \<and> next_ref (step act s) = next_ref s)
        \<or> (\<exists>k'. allocated_for k' s (step act s)))
   \<and> registry_ok (run acts init_store)"
proof -
  have "registry_ok (run acts init_store)"
    by (rule registry_ok_run) (rule registry_ok_init)
  then show ?thesis
    using step_registry [of s act] step_keeps_entry [of act s k a]
    by (simp add: gc_idem gc_lookup)
qed

theorem getConversation_identity_witness:
  "map_of (conversations used_store) ''r0'' = Some 0
   \<and> map_of (conversations (step (Call_setActiveResearch ''r0'') used_store)) ''r0'' = Some 0
   \<and> fst (getConversation ''r0'' (snd (getConversation ''r0'' used_store))) = 0
   \<and> registry_ok (run [Call_getConversation ''r0'', Call_getConversation ''r0''] init_store)"
proof -
  have a: "map_of (conversations used_store) ''r0'' = Some 0"
    by (simp add: used_store_eq)
  have b: "fst (getConversation ''r0'' used_store) = 0"
    by (simp add: gc_old [OF a])
  note th = getConversation_identity [of "''r0''" used_store "Call_setActiveResearch ''r0''" 0
      "[Call_getConversation ''r0'', Call_getConversation ''r0'']"]
  have "map_of (conversations (step (Call_setActiveResearch ''r0'') used_store)) ''r0'' = Some 0"
    using th a by blast
  moreover have "fst (getConversation ''r0'' (snd (getConversation ''r0'' used_store))) = 0"
    using th b by simp
  moreover have "registry_ok (run [Call_getConversation ''r0'', Call_getConversation ''r0'']
      init_store)"
    using th by blast
  ultimately show ?thesis
    using a by simp
qed

end
